theory Spec2Isabelle
  imports Main "HOL-Library.Multiset"
begin

section \<open>The scoutfs crawler: data model\<close>

text \<open>
  A shallow embedding of \<^verbatim>\<open>cmd_crawl.py\<close>, \<^verbatim>\<open>util.py\<close> and the parts of
  \<^verbatim>\<open>elastic.py\<close> that the crawler calls.

  A Python \<^verbatim>\<open>str\<close> is a list of code points. A file name that \<^verbatim>\<open>os.scandir\<close>
  could not decode holds lone surrogates (U+D800 .. U+DFFF, the surrogateescape
  convention); those are the code points that \<^verbatim>\<open>encode('utf-8', errors='strict')\<close>
  refuses.
\<close>

type_synonym pystr = "nat list"

definition is_surrogate :: "nat \<Rightarrow> bool" where
  "is_surrogate c \<longleftrightarrow> 55296 \<le> c \<and> c \<le> 57343"

definition slash :: nat where "slash = 47"
definition dot :: nat where "dot = 46"
definition qmark :: nat where "qmark = 63"

datatype pyexc = UnicodeError | KeyError | BulkIndexError

text \<open>
  \<^verbatim>\<open>util.handle_unicode\<close>: with \<^verbatim>\<open>errors='replace'\<close> every code point that cannot be
  encoded becomes a question mark; with \<^verbatim>\<open>errors='strict'\<close> the first one raises
  \<^verbatim>\<open>UnicodeEncodeError\<close>, which the function turns into \<^verbatim>\<open>UnicodeError\<close>. Encoding
  and decoding again gives back what was encoded.
\<close>

definition handle_unicode :: "pystr \<Rightarrow> bool \<Rightarrow> pyexc + pystr" where
  "handle_unicode f ignore_errors =
     (if ignore_errors then Inr (map (\<lambda>c. if is_surrogate c then qmark else c) f)
      else if list_ex is_surrogate f then Inl UnicodeError
      else Inr f)"

text \<open>\<^verbatim>\<open>posixpath.join\<close> of a directory and an entry name, \<^verbatim>\<open>dirname\<close>, \<^verbatim>\<open>basename\<close>.\<close>

definition path_join :: "pystr \<Rightarrow> pystr \<Rightarrow> pystr" where
  "path_join a b =
     (if b \<noteq> [] \<and> hd b = slash then b
      else if a = [] \<or> last a = slash then a @ b
      else a @ [slash] @ b)"

definition rstrip_slash :: "pystr \<Rightarrow> pystr" where
  "rstrip_slash p = rev (dropWhile (\<lambda>c. c = slash) (rev p))"

definition path_basename :: "pystr \<Rightarrow> pystr" where
  "path_basename p = rev (takeWhile (\<lambda>c. c \<noteq> slash) (rev p))"

definition path_dirname :: "pystr \<Rightarrow> pystr" where
  "path_dirname p =
     (let head = rev (dropWhile (\<lambda>c. c \<noteq> slash) (rev p))
      in if head \<noteq> [] \<and> \<not> list_all (\<lambda>c. c = slash) head then rstrip_slash head else head)"

text \<open>\<^verbatim>\<open>pathlib.Path(name).suffix\<close> for a single path component.\<close>

definition path_suffix :: "pystr \<Rightarrow> pystr" where
  "path_suffix n =
     (if dot \<notin> set n then []
      else let i = length n - length (takeWhile (\<lambda>c. c \<noteq> dot) (rev n)) - 1
           in if 0 < i \<and> i < length n - 1 then drop i n else [])"

definition get_file_name :: "pystr \<Rightarrow> bool \<Rightarrow> pyexc + pystr" where
  "get_file_name file ignore_errors = handle_unicode file ignore_errors"

definition get_dir_name :: "pystr \<Rightarrow> bool \<Rightarrow> pyexc + pystr" where
  "get_dir_name path ignore_errors = handle_unicode (path_basename path) ignore_errors"

definition get_parent_path :: "pystr \<Rightarrow> bool \<Rightarrow> pyexc + pystr" where
  "get_parent_path path ignore_errors = handle_unicode (path_dirname path) ignore_errors"

subsection \<open>The file system\<close>

text \<open>
  What \<^verbatim>\<open>os.stat\<close> and \<^verbatim>\<open>DirEntry.stat\<close> return. A call that raises \<^verbatim>\<open>OSError\<close> is
  \<open>Inl ()\<close> in the tree below; a directory whose \<^verbatim>\<open>os.scandir\<close> raises has no listing.
\<close>

record stat_result =
  st_size :: int
  st_blocks :: int
  st_uid :: nat
  st_gid :: nat
  st_nlink :: nat
  st_ino :: nat
  st_mtime :: int
  st_atime :: int
  st_ctime :: int

datatype fsnode =
    Symlink pystr
  | File pystr "unit + stat_result"
  | Dir pystr "unit + stat_result" "fsnode list option"

subsection \<open>Documents and the search backend\<close>

text \<open>
  Owner and group are kept as the numeric ids: \<^verbatim>\<open>get_owner_name\<close> and
  \<^verbatim>\<open>get_group_name\<close> only memoise a lookup in the password database and never raise.
  Time stamps are kept as seconds.
\<close>

record file_record =
  fr_size :: int
  fr_owner :: nat
  fr_group :: nat
  fr_name :: pystr
  fr_size_du :: int
  fr_nlink :: nat
  fr_ino :: nat
  fr_parent_path :: pystr
  fr_extension :: pystr
  fr_mtime :: int
  fr_atime :: int
  fr_ctime :: int

record dir_ident =
  di_owner :: nat
  di_group :: nat
  di_name :: pystr
  di_nlink :: nat
  di_parent_path :: pystr
  di_ino :: nat
  di_mtime :: int
  di_atime :: int
  di_ctime :: int

text \<open>
  The dictionary \<^verbatim>\<open>data\<close> of a directory: the four totals, and the identity keys.
  \<^verbatim>\<open>crawl_thread\<close> stores a dictionary with the four totals only under
  \<^verbatim>\<open>sizes[top]\<close>; that one has no identity part.
\<close>

record dir_data =
  dd_size :: int
  dd_size_du :: int
  dd_file_count :: int
  dd_dir_count :: int
  dd_ident :: "dir_ident option"

datatype doc =
    FileDoc file_record
  | DirDoc dir_data
  | IndexInfoStart pystr
  | IndexInfoEnd pystr int int int int

fun is_file_or_directory :: "doc \<Rightarrow> bool" where
  "is_file_or_directory (FileDoc _) = True"
| "is_file_or_directory (DirDoc _) = True"
| "is_file_or_directory _ = False"

text \<open>
  The backend as the crawler sees it: whether the index exists, the batches
  \<^verbatim>\<open>helpers.bulk\<close> has taken, the documents written one by one with \<^verbatim>\<open>es.index\<close>,
  the last settings put by \<^verbatim>\<open>tune_index\<close> (\<open>True\<close> for the defaults), and which
  batches the backend takes: a batch it refuses raises \<^verbatim>\<open>BulkIndexError\<close>.
\<close>

record backend =
  index_exists :: bool
  bulks :: "doc list list"
  indexed :: "doc list"
  default_settings :: bool
  accepts :: "doc list \<Rightarrow> bool"
  refreshes :: nat
  count_queries :: nat

definition es_count :: "backend \<Rightarrow> nat" where
  "es_count b = length (filter is_file_or_directory (concat (bulks b) @ indexed b))"

subsection \<open>Configuration and shared state\<close>

record config =
  blocksize :: int
  elastic_chunksize :: int

text \<open>
  The module-level globals. There is one root per process, so the dictionaries keyed
  by the root that \<^verbatim>\<open>scan\<close> initialises are plain fields; \<^verbatim>\<open>sizes\<close> stays a dictionary,
  since the code asks whether the root is in it. \<open>documents\<close> is the batch of the
  running worker. A process that has ended is \<open>Inl\<close> of its exit status.
\<close>

record crawl_state =
  quit :: bool
  emptyindex :: bool
  warnings :: nat
  sizes :: "pystr \<rightharpoonup> dir_data"
  dircount :: int
  filecount :: int
  inodecount :: int
  skipdircount :: int
  skipfilecount :: int
  total_documents :: int
  documents :: "doc list"
  es :: backend

type_synonym 'a proc = "nat + 'a"

text \<open>The locals of one call of \<^verbatim>\<open>get_tree_attr\<close>.\<close>

record frame =
  l_size :: int
  l_dirs :: int
  l_files :: int
  l_size_du :: int
  l_f_count :: int
  l_d_count :: int
  l_total_docs :: int
  l_file_skip_count :: int
  l_dir_skip_count :: int
  l_parent_path :: "pystr option"

definition frame0 :: frame where
  "frame0 = \<lparr>l_size = 0, l_dirs = 0, l_files = 0, l_size_du = 0, l_f_count = 0,
     l_d_count = 0, l_total_docs = 0, l_file_skip_count = 0, l_dir_skip_count = 0,
     l_parent_path = None\<rparr>"

datatype flow = Normal | Raised_OSError

section \<open>The crawler\<close>

definition exit_app_critical_error :: "'a proc" where
  "exit_app_critical_error = Inl 1"

text \<open>
  \<^verbatim>\<open>begin_bulk\<close>: a refused batch is logged and ends the process; the upload time is
  not modelled.
\<close>

definition begin_bulk :: "doc list \<Rightarrow> crawl_state \<Rightarrow> crawl_state proc" where
  "begin_bulk docs st =
     (if accepts (es st) docs
      then Inr (st\<lparr>es := (es st)\<lparr>bulks := bulks (es st) @ [docs]\<rparr>\<rparr>)
      else exit_app_critical_error)"

text \<open>
  The four lines that follow the making of a record, the same for a file and for a
  directory: append to the batch, and upload and clear the batch once it has reached
  the chunk size.
\<close>

definition append_document :: "config \<Rightarrow> doc \<Rightarrow> frame \<Rightarrow> crawl_state \<Rightarrow> (frame \<times> crawl_state) proc" where
  "append_document cfg d l st =
     (let docs = documents st @ [d];
          document_count = int (length docs)
      in if document_count \<ge> elastic_chunksize cfg
         then (case begin_bulk docs (st\<lparr>documents := docs\<rparr>) of
                 Inl c \<Rightarrow> Inl c
               | Inr st' \<Rightarrow> Inr (l\<lparr>l_total_docs := l_total_docs l + document_count\<rparr>,
                                 st'\<lparr>documents := []\<rparr>))
         else Inr (l, st\<lparr>documents := docs\<rparr>))"

text \<open>
  The name fields of a file record. \<open>content_path\<close> is \<^verbatim>\<open>content.path\<close>, \<open>name\<close> is
  \<^verbatim>\<open>content.name\<close>, \<open>pp\<close> the local \<^verbatim>\<open>parent_path\<close>. The result is the new
  \<^verbatim>\<open>parent_path\<close>, \<^verbatim>\<open>file_name\<close>, and whether the handler of \<^verbatim>\<open>UnicodeError\<close> ran.
  A \<^verbatim>\<open>UnicodeError\<close> raised inside the handler would leave the function.
\<close>

definition file_names :: "pystr \<Rightarrow> pystr \<Rightarrow> pystr option \<Rightarrow> pyexc + (pystr \<times> pystr \<times> bool)" where
  "file_names content_path name pp =
     (case (case pp of None \<Rightarrow> get_parent_path content_path False | Some p \<Rightarrow> Inr p) of
        Inr p \<Rightarrow>
          (case get_file_name name False of
             Inr file_name \<Rightarrow> Inr (p, file_name, False)
           | Inl _ \<Rightarrow>
               (case get_file_name name True of
                  Inl e \<Rightarrow> Inl e
                | Inr file_name \<Rightarrow> Inr (p, file_name, True)))
      | Inl _ \<Rightarrow>
          (case (case pp of None \<Rightarrow> get_parent_path content_path True | Some p \<Rightarrow> Inr p) of
             Inl e \<Rightarrow> Inl e
           | Inr p \<Rightarrow>
               (case get_file_name name True of
                  Inl e \<Rightarrow> Inl e
                | Inr file_name \<Rightarrow> Inr (p, file_name, True))))"

definition dir_names :: "pystr \<Rightarrow> pyexc + (pystr \<times> pystr \<times> bool)" where
  "dir_names path =
     (case get_dir_name path False of
        Inr file_name \<Rightarrow>
          (case get_parent_path path False of
             Inr p \<Rightarrow> Inr (file_name, p, False)
           | Inl _ \<Rightarrow>
               (case get_dir_name path True of
                  Inl e \<Rightarrow> Inl e
                | Inr file_name' \<Rightarrow>
                    (case get_parent_path path True of
                       Inl e \<Rightarrow> Inl e
                     | Inr p \<Rightarrow> Inr (file_name', p, True))))
      | Inl _ \<Rightarrow>
          (case get_dir_name path True of
             Inl e \<Rightarrow> Inl e
           | Inr file_name' \<Rightarrow>
               (case get_parent_path path True of
                  Inl e \<Rightarrow> Inl e
                | Inr p \<Rightarrow> Inr (file_name', p, True))))"

definition file_data :: "config \<Rightarrow> pystr \<Rightarrow> stat_result \<Rightarrow> pystr \<Rightarrow> pystr \<Rightarrow> file_record" where
  "file_data cfg name f_stat file_name parent_path =
     \<lparr>fr_size = st_size f_stat, fr_owner = st_uid f_stat, fr_group = st_gid f_stat,
      fr_name = file_name, fr_size_du = st_blocks f_stat * blocksize cfg,
      fr_nlink = st_nlink f_stat, fr_ino = st_ino f_stat, fr_parent_path = parent_path,
      fr_extension = path_suffix name, fr_mtime = st_mtime f_stat,
      fr_atime = st_atime f_stat, fr_ctime = st_ctime f_stat\<rparr>"

text \<open>
  The body of the \<^verbatim>\<open>else\<close> branch of the loop for an entry that is neither a symlink
  nor a directory and whose \<^verbatim>\<open>stat\<close> succeeded (\<open>l\<close> already has \<^verbatim>\<open>f_count\<close> raised).
\<close>

definition visit_file :: "config \<Rightarrow> pystr \<Rightarrow> pystr \<Rightarrow> stat_result \<Rightarrow> frame \<Rightarrow> crawl_state \<Rightarrow>
    (frame \<times> crawl_state) proc" where
  "visit_file cfg path name f_stat l st =
     (let fsize = st_size f_stat;
          fsize_du = st_blocks f_stat * blocksize cfg
      in if fsize > 0 then
           (let l1 = l\<lparr>l_size := l_size l + fsize, l_size_du := l_size_du l + fsize_du,
                        l_files := l_files l + 1\<rparr>
            in case file_names (path_join path name) name (l_parent_path l1) of
                 Inl _ \<Rightarrow> exit_app_critical_error
               | Inr (parent_path, file_name, warned) \<Rightarrow>
                   append_document cfg (FileDoc (file_data cfg name f_stat file_name parent_path))
                     (l1\<lparr>l_parent_path := Some parent_path\<rparr>)
                     (if warned then st\<lparr>warnings := warnings st + 1\<rparr> else st))
         else Inr (l\<lparr>l_file_skip_count := l_file_skip_count l + 1\<rparr>, st))"

definition dir_data_of :: "stat_result \<Rightarrow> pystr \<Rightarrow> pystr \<Rightarrow> frame \<Rightarrow> dir_data" where
  "dir_data_of dir_stat file_name parent_path l =
     \<lparr>dd_size = l_size l, dd_size_du = l_size_du l, dd_file_count = l_files l,
      dd_dir_count = l_dirs l + 1,
      dd_ident = Some \<lparr>di_owner = st_uid dir_stat, di_group = st_gid dir_stat,
        di_name = file_name, di_nlink = st_nlink dir_stat, di_parent_path = parent_path,
        di_ino = st_ino dir_stat, di_mtime = st_mtime dir_stat,
        di_atime = st_atime dir_stat, di_ctime = st_ctime dir_stat\<rparr>\<rparr>"

text \<open>The six additions to the counters of the root, made under \<^verbatim>\<open>crawl_lock\<close>.\<close>

definition update_counters :: "frame \<Rightarrow> crawl_state \<Rightarrow> crawl_state" where
  "update_counters l st =
     st\<lparr>total_documents := total_documents st + l_total_docs l,
        skipdircount := skipdircount st + l_dir_skip_count l,
        inodecount := inodecount st + (l_d_count l + l_f_count l),
        skipfilecount := skipfilecount st + l_file_skip_count l,
        dircount := dircount st + (l_d_count l - l_dir_skip_count l),
        filecount := filecount st + (l_f_count l - l_file_skip_count l)\<rparr>"

text \<open>
  What follows the loop inside the \<^verbatim>\<open>try\<close>: the directory's own record, or the skip,
  and the update of the shared counters.
\<close>

definition finish_dir :: "config \<Rightarrow> pystr \<Rightarrow> pystr \<Rightarrow> stat_result \<Rightarrow> nat \<Rightarrow> frame \<Rightarrow> crawl_state \<Rightarrow>
    (frame \<times> crawl_state) proc" where
  "finish_dir cfg root path dir_stat depth l st =
     (case
        (if l_files l > 0 \<or> l_dirs l > 0 then
           (case dir_names path of
              Inl _ \<Rightarrow> exit_app_critical_error
            | Inr (file_name, parent_path, warned) \<Rightarrow>
                (let st1 = (if warned then st\<lparr>warnings := warnings st + 1\<rparr> else st);
                     l1 = l\<lparr>l_parent_path := Some parent_path\<rparr>;
                     data = dir_data_of dir_stat file_name parent_path l
                 in if depth > 0 then append_document cfg (DirDoc data) l1 st1
                    else Inr (l1, st1\<lparr>sizes := (sizes st1)(root \<mapsto> data)\<rparr>)))
         else Inr (l\<lparr>l_dir_skip_count := l_dir_skip_count l + 1,
                     l_dirs := (if l_dirs l > 0 then l_dirs l - 1 else l_dirs l)\<rparr>, st))
      of
        Inl c \<Rightarrow> Inl c
      | Inr (l2, st2) \<Rightarrow> Inr (l2, update_counters l2 st2))"

type_synonym aggregate = "int \<times> int \<times> int \<times> int"

definition frame_result :: "frame \<Rightarrow> aggregate" where
  "frame_result l = (l_size l, l_size_du l, l_files l, l_dirs l)"

text \<open>
  \<^verbatim>\<open>get_tree_attr\<close> for the directory at \<open>path\<close>, whose \<^verbatim>\<open>os.stat\<close> gives \<open>dstat\<close> and
  whose \<^verbatim>\<open>os.scandir\<close> gives \<open>listing\<close>, and the loop over the entries. The loop ends
  normally, or with the \<^verbatim>\<open>OSError\<close> of an entry's \<^verbatim>\<open>stat\<close>, which the handler at the
  end of \<^verbatim>\<open>get_tree_attr\<close> catches.
\<close>

fun get_tree_attr :: "config \<Rightarrow> pystr \<Rightarrow> pystr \<Rightarrow> unit + stat_result \<Rightarrow> fsnode list option \<Rightarrow>
      nat \<Rightarrow> int \<Rightarrow> crawl_state \<Rightarrow> (aggregate \<times> crawl_state) proc"
  and scandir_loop :: "config \<Rightarrow> pystr \<Rightarrow> pystr \<Rightarrow> nat \<Rightarrow> int \<Rightarrow> fsnode list \<Rightarrow> frame \<Rightarrow> crawl_state \<Rightarrow>
      (flow \<times> frame \<times> crawl_state) proc"
where
  "get_tree_attr cfg root path (Inl _) listing depth maxdepth st =
     Inr ((0, 0, 0, 0), st\<lparr>warnings := warnings st + 1\<rparr>)"
| "get_tree_attr cfg root path (Inr dir_stat) None depth maxdepth st =
     Inr (frame_result frame0, st\<lparr>warnings := warnings st + 1\<rparr>)"
| "get_tree_attr cfg root path (Inr dir_stat) (Some entries) depth maxdepth st =
     (case scandir_loop cfg root path depth maxdepth entries frame0 st of
        Inl c \<Rightarrow> Inl c
      | Inr (Raised_OSError, l, st1) \<Rightarrow>
          Inr (frame_result l, st1\<lparr>warnings := warnings st1 + 1\<rparr>)
      | Inr (Normal, l, st1) \<Rightarrow>
          (case finish_dir cfg root path dir_stat depth l st1 of
             Inl c \<Rightarrow> Inl c
           | Inr (l2, st2) \<Rightarrow> Inr (frame_result l2, st2)))"
| "scandir_loop cfg root path depth maxdepth [] l st = Inr (Normal, l, st)"
| "scandir_loop cfg root path depth maxdepth (Symlink name # rest) l st =
     scandir_loop cfg root path depth maxdepth rest l st"
| "scandir_loop cfg root path depth maxdepth (Dir name dstat listing # rest) l st =
     (let l1 = l\<lparr>l_d_count := l_d_count l + 1, l_dirs := l_dirs l + 1\<rparr>
      in if maxdepth > 0 \<and> int depth < maxdepth \<and> \<not> quit st then
           (case get_tree_attr cfg root (path_join path name) dstat listing (depth + 1) maxdepth st of
              Inl c \<Rightarrow> Inl c
            | Inr ((subdir_size, subdir_du, subdir_fc, subdir_dc), st1) \<Rightarrow>
                scandir_loop cfg root path depth maxdepth rest
                  (l1\<lparr>l_size := l_size l1 + subdir_size, l_size_du := l_size_du l1 + subdir_du,
                      l_files := l_files l1 + subdir_fc, l_dirs := l_dirs l1 + subdir_dc\<rparr>) st1)
         else scandir_loop cfg root path depth maxdepth rest l1 st)"
| "scandir_loop cfg root path depth maxdepth (File name fstat # rest) l st =
     (let l1 = l\<lparr>l_f_count := l_f_count l + 1\<rparr>
      in case fstat of
           Inl _ \<Rightarrow> Inr (Raised_OSError, l1, st)
         | Inr f_stat \<Rightarrow>
             (case visit_file cfg path name f_stat l1 st of
                Inl c \<Rightarrow> Inl c
              | Inr (l2, st1) \<Rightarrow> scandir_loop cfg root path depth maxdepth rest l2 st1))"


definition then_proc :: "'a proc \<Rightarrow> ('a \<Rightarrow> 'b proc) \<Rightarrow> 'b proc" where
  "then_proc m f = (case m of Inl c \<Rightarrow> Inl c | Inr x \<Rightarrow> f x)"

text \<open>
  One statement \<^verbatim>\<open>sizes[root][k] += sizes[top][k]\<close>; a key that is not in \<^verbatim>\<open>sizes\<close>
  raises \<^verbatim>\<open>KeyError\<close>, which leaves the task and ends the process in \<^verbatim>\<open>crawl\<close>.
\<close>

definition sizes_add :: "(dir_data \<Rightarrow> int) \<Rightarrow> ((int \<Rightarrow> int) \<Rightarrow> dir_data \<Rightarrow> dir_data) \<Rightarrow>
    pystr \<Rightarrow> pystr \<Rightarrow> crawl_state \<Rightarrow> crawl_state proc" where
  "sizes_add get upd root top' st =
     (case sizes st root of
        None \<Rightarrow> exit_app_critical_error
      | Some r \<Rightarrow>
          (case sizes st top' of
             None \<Rightarrow> exit_app_critical_error
           | Some t \<Rightarrow> Inr (st\<lparr>sizes := (sizes st)(root \<mapsto> upd (\<lambda>v. v + get t) r)\<rparr>)))"

text \<open>
  The two blocks of \<^verbatim>\<open>crawl_thread\<close> that follow the traversal: the upload of what is
  left in the batch, and, for a subtree task, the entry \<^verbatim>\<open>sizes[top]\<close> and its addition
  to the entry of the root.
\<close>

definition flush_remainder :: "crawl_state \<Rightarrow> crawl_state proc" where
  "flush_remainder st =
     (let document_count = int (length (documents st))
      in if document_count > 0
         then then_proc (begin_bulk (documents st) st)
                (\<lambda>st2. Inr (st2\<lparr>total_documents := total_documents st2 + document_count,
                                documents := []\<rparr>))
         else Inr st)"

definition merge_top :: "pystr \<Rightarrow> pystr \<Rightarrow> aggregate \<Rightarrow> crawl_state \<Rightarrow> crawl_state proc" where
  "merge_top root top' agg st =
     (case agg of (size', size_du, file_count, dir_count) \<Rightarrow>
        (let st4 = st\<lparr>sizes := (sizes st)(top' \<mapsto>
                     \<lparr>dd_size = size', dd_size_du = size_du, dd_file_count = file_count,
                      dd_dir_count = dir_count, dd_ident = None\<rparr>)\<rparr>
         in if size' > 0 then
              then_proc (sizes_add dd_size dd_size_update root top' st4) (\<lambda>st5.
              then_proc (sizes_add dd_size_du dd_size_du_update root top' st5) (\<lambda>st6.
              then_proc (sizes_add dd_dir_count dd_dir_count_update root top' st6) (\<lambda>st7.
              sizes_add dd_file_count dd_file_count_update root top' st7)))
            else Inr st4))"

definition crawl_thread :: "config \<Rightarrow> pystr \<Rightarrow> pystr \<Rightarrow> unit + stat_result \<Rightarrow> fsnode list option \<Rightarrow>
    nat \<Rightarrow> int \<Rightarrow> crawl_state \<Rightarrow> crawl_state proc" where
  "crawl_thread cfg root top' dstat listing depth maxdepth st =
     then_proc (get_tree_attr cfg root top' dstat listing depth maxdepth (st\<lparr>documents := []\<rparr>))
       (\<lambda>(agg, st1).
          then_proc (flush_remainder st1)
            (\<lambda>st3. if depth > 0 then merge_top root top' agg st3 else Inr st3))"

text \<open>The work list of \<^verbatim>\<open>crawl\<close>: the immediate subdirectories of the root.\<close>

type_synonym task = "pystr \<times> (unit + stat_result) \<times> fsnode list option"

fun subdir_list :: "pystr \<Rightarrow> fsnode list \<Rightarrow> task list" where
  "subdir_list root [] = []"
| "subdir_list root (Symlink name # rest) = subdir_list root rest"
| "subdir_list root (Dir name dstat listing # rest) =
     (path_join root name, dstat, listing) # subdir_list root rest"
| "subdir_list root (File name fstat # rest) = subdir_list root rest"

text \<open>
  The subtree tasks, one after the other in the order in which they complete. A task
  touches the shared state only to add to it under \<^verbatim>\<open>crawl_lock\<close>, and its batch is its
  own, so the tasks are run as a sequence; the order is a parameter.
\<close>

fun run_tasks :: "config \<Rightarrow> pystr \<Rightarrow> int \<Rightarrow> task list \<Rightarrow> crawl_state \<Rightarrow> crawl_state proc" where
  "run_tasks cfg root maxdepth [] st = Inr st"
| "run_tasks cfg root maxdepth ((top', dstat, listing) # rest) st =
     (case crawl_thread cfg root top' dstat listing 1 maxdepth st of
        Inl c \<Rightarrow> Inl c
      | Inr st1 \<Rightarrow> run_tasks cfg root maxdepth rest st1)"

text \<open>\<^verbatim>\<open>elastic.index_end\<close> and the two branches that end \<^verbatim>\<open>crawl\<close>.\<close>

definition index_end :: "pystr \<Rightarrow> int \<Rightarrow> int \<Rightarrow> int \<Rightarrow> int \<Rightarrow> backend \<Rightarrow> backend" where
  "index_end path size' size_du fc dc b =
     b\<lparr>indexed := indexed b @ [IndexInfoEnd path size' size_du fc dc]\<rparr>"

definition finish_crawl :: "pystr \<Rightarrow> crawl_state \<Rightarrow> crawl_state" where
  "finish_crawl root st =
     (case sizes st root of
        None \<Rightarrow>
          (let st1 = st\<lparr>emptyindex := True\<rparr>;
               b1 = (es st1)\<lparr>refreshes := refreshes (es st1) + 1\<rparr>;
               res = es_count b1;
               b2 = b1\<lparr>count_queries := count_queries b1 + 1\<rparr>
           in if res = 0 then st1\<lparr>es := b2\<lparr>index_exists := False\<rparr>\<rparr> else st1\<lparr>es := b2\<rparr>)
      | Some r \<Rightarrow>
          (let b1 = (es st)\<lparr>indexed := indexed (es st) @ [DirDoc r]\<rparr>;
               st1 = st\<lparr>es := b1, total_documents := total_documents st + 1\<rparr>
           in st1\<lparr>es := index_end root (dd_size r) (dd_size_du r) (filecount st1) (dircount st1)
                          (es st1)\<rparr>))"

text \<open>
  \<^verbatim>\<open>crawl\<close>. \<open>order\<close> puts the submitted tasks in the order in which they complete. An
  \<^verbatim>\<open>OSError\<close> of the first \<^verbatim>\<open>os.scandir(root)\<close> is not caught here, and any exception of
  a task ends the process.
\<close>

definition crawl :: "config \<Rightarrow> (task list \<Rightarrow> task list) \<Rightarrow> pystr \<Rightarrow> unit + stat_result \<Rightarrow>
    fsnode list option \<Rightarrow> int \<Rightarrow> crawl_state \<Rightarrow> crawl_state proc" where
  "crawl cfg order root rstat rlisting maxdepth st =
     (case rlisting of
        None \<Rightarrow> exit_app_critical_error
      | Some entries \<Rightarrow>
          then_proc (crawl_thread cfg root root rstat rlisting 0 0 st) (\<lambda>st1.
          then_proc (run_tasks cfg root maxdepth (order (subdir_list root entries)) st1) (\<lambda>st2.
          Inr (finish_crawl root st2))))"

text \<open>
  \<^verbatim>\<open>elastic.tune_index\<close> and \<^verbatim>\<open>exit_app\<close>. \<open>Inr\<close> is the plain return when \<^verbatim>\<open>quit\<close> is
  already set; otherwise the settings of the index are put back (unless the run was
  empty) and the process ends with the status computed here.
\<close>

definition tune_index :: "bool \<Rightarrow> backend \<Rightarrow> backend" where
  "tune_index defaults b = b\<lparr>default_settings := defaults\<rparr>"

definition exit_app :: "crawl_state \<Rightarrow> crawl_state proc" where
  "exit_app st =
     (if quit st then Inr st
      else if warnings st > 0 then Inl 78
      else Inl 0)"


subsection \<open>The scan command\<close>

text \<open>
  Index names and the path given on the command line are strings of bytes.
  \<^verbatim>\<open>'scoutfs-' in index\<close> is Python's substring test.
\<close>

fun contains :: "string \<Rightarrow> string \<Rightarrow> bool" where
  "contains sub [] = (sub = [])"
| "contains sub (c # cs) = (take (length sub) (c # cs) = sub \<or> contains sub cs)"

definition replace_char :: "char \<Rightarrow> char \<Rightarrow> string \<Rightarrow> string" where
  "replace_char a b s = map (\<lambda>c. if c = a then b else c) s"

text \<open>\<^verbatim>\<open>str.lower\<close>, on the ASCII letters.\<close>

definition lower_char :: "char \<Rightarrow> char" where
  "lower_char c = (let n = (of_char c :: nat) in if 65 \<le> n \<and> n \<le> 90 then char_of (n + 32) else c)"

definition lower :: "string \<Rightarrow> string" where
  "lower s = map lower_char s"

definition lstrip :: "char \<Rightarrow> string \<Rightarrow> string" where
  "lstrip a s = dropWhile (\<lambda>c. c = a) s"

definition rstrip :: "char \<Rightarrow> string \<Rightarrow> string" where
  "rstrip a s = rev (dropWhile (\<lambda>c. c = a) (rev s))"

definition default_index_option :: string where
  "default_index_option = ''scoutfs-<dir_tree>-<datetime>''"

text \<open>The default index name; \<open>now\<close> is \<^verbatim>\<open>datetime.now().strftime("%y%m%d%H%M%S")\<close>.\<close>

definition default_index :: "string \<Rightarrow> string \<Rightarrow> string" where
  "default_index dir_tree now =
     (let tree_dir_str = replace_char CHR ''/'' CHR ''_'' (replace_char CHR '' '' CHR ''_'' dir_tree)
      in ''scoutfs'' @ lstrip CHR ''_'' (lower tree_dir_str) @ ''-'' @ now)"

text \<open>
  What \<^verbatim>\<open>scan\<close> reads from outside: whether \<^verbatim>\<open>elastic.connection\<close> reaches the
  server, \<^verbatim>\<open>os.path.abspath\<close> (it depends on the working directory), the clock, the
  indices that exist, the root directory, and the order in which the tasks complete.
\<close>

record scan_env =
  connection_ok :: bool
  abspath :: "string \<Rightarrow> string"
  now :: string
  existing :: "string \<Rightarrow> bool"
  root_stat :: "unit + stat_result"
  root_listing :: "fsnode list option"
  completion_order :: "task list \<Rightarrow> task list"
  bulk_accepts :: "doc list \<Rightarrow> bool"

fun indexable :: "fsnode \<Rightarrow> bool" where
  "indexable (Symlink _) = False"
| "indexable _ = True"

text \<open>
  \<^verbatim>\<open>scan\<close> up to the check that the index does not exist yet: the status with which
  it exits, or the root and the index name it goes on with.
\<close>

definition scan_prepare :: "scan_env \<Rightarrow> string \<Rightarrow> string \<Rightarrow> (string \<times> string) proc" where
  "scan_prepare env index path =
     (if \<not> connection_ok env then Inl 1
      else if index \<noteq> [] \<and> \<not> contains ''scoutfs-'' index then Inl 1
      else
        (let dir_tree = abspath env (if path \<noteq> ''/'' then rstrip CHR ''/'' path else path)
         in case root_listing env of
              None \<Rightarrow> Inl 1
            | Some entries \<Rightarrow>
                if length (filter indexable entries) = 0 then Inl 0
                else
                  (let index' = (if index = default_index_option
                                 then default_index dir_tree (now env) else index)
                   in if existing env index' then Inl 1 else Inr (dir_tree, index'))))"

definition initial_state :: "scan_env \<Rightarrow> crawl_state" where
  "initial_state env =
     \<lparr>quit = False, emptyindex = False, warnings = 0, sizes = Map.empty,
      dircount = 1, filecount = 0, inodecount = 0, skipdircount = 0, skipfilecount = 0,
      total_documents = 0, documents = [],
      es = \<lparr>index_exists = True, bulks = [], indexed = [], default_settings = False,
             accepts = bulk_accepts env, refreshes = 0, count_queries = 0\<rparr>\<rparr>"

text \<open>
  \<^verbatim>\<open>scan\<close>: the index is created and tuned, the counters of the root are set,
  \<^verbatim>\<open>index_start\<close> writes its record (the records of the mount points are left out),
  then \<^verbatim>\<open>crawl\<close> and \<^verbatim>\<open>exit_app\<close>.
\<close>

definition index_start :: "pystr \<Rightarrow> backend \<Rightarrow> backend" where
  "index_start path b = b\<lparr>indexed := indexed b @ [IndexInfoStart path]\<rparr>"

definition start_state :: "scan_env \<Rightarrow> pystr \<Rightarrow> crawl_state" where
  "start_state env root =
     (let st0 = initial_state env
      in st0\<lparr>es := index_start root (tune_index False (es st0))\<rparr>)"

definition scan :: "config \<Rightarrow> scan_env \<Rightarrow> string \<Rightarrow> string \<Rightarrow> int \<Rightarrow> crawl_state proc" where
  "scan cfg env index path maxdepth =
     then_proc (scan_prepare env index path) (\<lambda>(dir_tree, index').
       (let root = map of_char dir_tree
        in then_proc (crawl cfg (completion_order env) root (root_stat env) (root_listing env)
                        maxdepth (start_state env root))
             exit_app))"

text \<open>The configuration is read when the module is loaded; a missing setting exits.\<close>

definition load_config :: "config option \<Rightarrow> config proc" where
  "load_config c = (case c of None \<Rightarrow> Inl 1 | Some cfg \<Rightarrow> Inr cfg)"


section \<open>Notions used in the statements\<close>

text \<open>
  The records a worker has appended so far: those already uploaded, batch after
  batch, and those still in its batch.
\<close>

definition emitted :: "crawl_state \<Rightarrow> doc list" where
  "emitted st = concat (bulks (es st)) @ documents st"


fun is_dir :: "fsnode \<Rightarrow> bool" where
  "is_dir (Dir _ _ _) = True"
| "is_dir _ = False"

text \<open>What the traversal never touches: the flags, and the backend but for its batches.\<close>

definition keeps_rest :: "config \<Rightarrow> pystr \<Rightarrow> crawl_state \<Rightarrow> crawl_state \<Rightarrow> bool" where
  "keeps_rest cfg root s s' \<longleftrightarrow>
     quit s' = quit s \<and> emptyindex s' = emptyindex s \<and>
     indexed (es s') = indexed (es s) \<and> index_exists (es s') = index_exists (es s) \<and>
     accepts (es s') = accepts (es s) \<and> refreshes (es s') = refreshes (es s) \<and>
     count_queries (es s') = count_queries (es s) \<and>
     default_settings (es s') = default_settings (es s)"

definition keeps_sizes :: "config \<Rightarrow> pystr \<Rightarrow> crawl_state \<Rightarrow> crawl_state \<Rightarrow> bool" where
  "keeps_sizes cfg root s s' \<longleftrightarrow> sizes s' = sizes s"


text \<open>
  The invariant of the locals: nothing is negative, there is a size exactly when there
  is a file, and without a file there is no size on disk.
\<close>

definition frame_ok :: "frame \<Rightarrow> bool" where
  "frame_ok l \<longleftrightarrow>
     0 \<le> l_size l \<and> 0 \<le> l_files l \<and> 0 \<le> l_dirs l \<and>
     (l_size l = 0 \<longleftrightarrow> l_files l = 0) \<and>
     (l_files l = 0 \<longrightarrow> l_size_du l = 0)"


text \<open>
  The names of the immediate subdirectories. In a directory they are distinct, not
  empty and without a slash.
\<close>

fun subdir_names :: "fsnode list \<Rightarrow> pystr list" where
  "subdir_names [] = []"
| "subdir_names (Dir name dstat listing # rest) = name # subdir_names rest"
| "subdir_names (e # rest) = subdir_names rest"

definition well_named :: "fsnode list \<Rightarrow> bool" where
  "well_named entries \<longleftrightarrow>
     distinct (subdir_names entries) \<and>
     list_all (\<lambda>n. n \<noteq> [] \<and> slash \<notin> set n) (subdir_names entries)"

text \<open>
  What the files directly in a directory contribute: the sizes, the sizes on disk and
  the number of the files whose size is not zero.
\<close>

fun direct_stats :: "fsnode list \<Rightarrow> stat_result list" where
  "direct_stats [] = []"
| "direct_stats (File name (Inr s) # rest) =
     (if st_size s > 0 then s # direct_stats rest else direct_stats rest)"
| "direct_stats (e # rest) = direct_stats rest"

definition direct_size :: "fsnode list \<Rightarrow> int" where
  "direct_size entries = sum_list (map st_size (direct_stats entries))"

definition direct_size_du :: "config \<Rightarrow> fsnode list \<Rightarrow> int" where
  "direct_size_du cfg entries =
     sum_list (map (\<lambda>s. st_blocks s * blocksize cfg) (direct_stats entries))"

definition direct_files :: "fsnode list \<Rightarrow> int" where
  "direct_files entries = int (length (direct_stats entries))"

text \<open>A total stored under \<^verbatim>\<open>sizes[top]\<close>, the aggregate that the task of \<open>top\<close> returned.\<close>

definition top_total :: "(dir_data \<Rightarrow> int) \<Rightarrow> crawl_state \<Rightarrow> pystr \<Rightarrow> int" where
  "top_total g st t = (case sizes st t of None \<Rightarrow> 0 | Some e \<Rightarrow> g e)"

definition as_entry :: "aggregate \<Rightarrow> dir_data" where
  "as_entry agg =
     (case agg of (a, b, c, d) \<Rightarrow>
        \<lparr>dd_size = a, dd_size_du = b, dd_file_count = c, dd_dir_count = d, dd_ident = None\<rparr>)"






text \<open>The exit status of a process that has ended.\<close>

definition exit_status :: "'a proc \<Rightarrow> nat option" where
  "exit_status r = (case r of Inl c \<Rightarrow> Some c | Inr _ \<Rightarrow> None)"

section \<open>Example inputs\<close>

text \<open>
  The scenario of the specification: a root \<^verbatim>\<open>/r\<close> with a file \<^verbatim>\<open>a\<close> of 10 bytes and a
  subdirectory \<^verbatim>\<open>b\<close> that holds a file \<^verbatim>\<open>c\<close> of 20 bytes, one allocated block each.
\<close>

definition ex_stat :: "int \<Rightarrow> int \<Rightarrow> stat_result" where
  "ex_stat sz bl = \<lparr>st_size = sz, st_blocks = bl, st_uid = 0, st_gid = 0, st_nlink = 1,
     st_ino = 7, st_mtime = 0, st_atime = 0, st_ctime = 0\<rparr>"

definition ex_cfg :: config where
  "ex_cfg = \<lparr>blocksize = 4096, elastic_chunksize = 2\<rparr>"

definition ex_root :: pystr where
  "ex_root = [47, 114]"

definition ex_listing :: "fsnode list" where
  "ex_listing = [File [97] (Inr (ex_stat 10 1)),
                 Dir [98] (Inr (ex_stat 4096 8)) (Some [File [99] (Inr (ex_stat 20 1))])]"

definition ex_env :: scan_env where
  "ex_env = \<lparr>connection_ok = True, abspath = (\<lambda>p. p), now = ''211231000000'',
     existing = (\<lambda>_. False), root_stat = Inr (ex_stat 4096 8),
     root_listing = Some ex_listing, completion_order = rev, bulk_accepts = (\<lambda>_. True)\<rparr>"

text \<open>A root whose only entry is an empty file, and one whose second entry has vanished.\<close>

definition ex_empty_listing :: "fsnode list" where
  "ex_empty_listing = [File [97] (Inr (ex_stat 0 0))]"

definition ex_partial_listing :: "fsnode list" where
  "ex_partial_listing = [File [97] (Inr (ex_stat 10 1)), File [98] (Inl ())]"

text \<open>The same scenario with a backend that refuses every batch, and with the vanished entry.\<close>

definition ex_env_rejecting :: scan_env where
  "ex_env_rejecting = ex_env\<lparr>bulk_accepts := (\<lambda>_. False)\<rparr>"

definition ex_env_partial :: scan_env where
  "ex_env_partial = ex_env\<lparr>root_listing := Some ex_partial_listing\<rparr>"

text \<open>The crawls of the two small roots, from the state in which \<^verbatim>\<open>scan\<close> starts them.\<close>

definition ex_empty_run :: "crawl_state proc" where
  "ex_empty_run = crawl ex_cfg rev ex_root (Inr (ex_stat 4096 8)) (Some ex_empty_listing) 999
     (start_state ex_env ex_root)"

definition ex_partial_run :: "crawl_state proc" where
  "ex_partial_run = crawl ex_cfg rev ex_root (Inr (ex_stat 4096 8)) (Some ex_partial_listing) 999
     (start_state ex_env ex_root)"

text \<open>The scenario with a second subdirectory \<^verbatim>\<open>d\<close> that holds a file \<^verbatim>\<open>e\<close> of 5 bytes.\<close>

definition ex_two_listing :: "fsnode list" where
  "ex_two_listing = [File [97] (Inr (ex_stat 10 1)),
     Dir [98] (Inr (ex_stat 4096 8)) (Some [File [99] (Inr (ex_stat 20 1))]),
     Dir [100] (Inr (ex_stat 4096 8)) (Some [File [101] (Inr (ex_stat 5 1))])]"

definition ex_two_run :: "crawl_state proc" where
  "ex_two_run = crawl ex_cfg rev ex_root (Inr (ex_stat 4096 8)) (Some ex_two_listing) 999
     (start_state ex_env ex_root)"

text \<open>
  The pass over a root with three files: three records with a chunk size of two.
\<close>

definition ex_thread_run :: "crawl_state proc" where
  "ex_thread_run = crawl_thread ex_cfg ex_root ex_root (Inr (ex_stat 4096 8))
     (Some [File [97] (Inr (ex_stat 10 1)), File [99] (Inr (ex_stat 20 1)),
            File [101] (Inr (ex_stat 5 1))]) 0 0
     (start_state ex_env ex_root)"

text \<open>
  A file of 5 bytes whose name holds the lone surrogate U+DC80 (a byte that is not
  UTF-8), as the only entry of the root.
\<close>

definition ex_bad_name :: pystr where
  "ex_bad_name = [97, 56448]"

definition ex_bad_loop :: "(flow \<times> frame \<times> crawl_state) proc" where
  "ex_bad_loop = scandir_loop ex_cfg ex_root ex_root 0 0 [File ex_bad_name (Inr (ex_stat 5 1))]
     frame0 (start_state ex_env ex_root)"

text \<open>The same name on a file of no bytes.\<close>

definition ex_bad_empty_loop :: "(flow \<times> frame \<times> crawl_state) proc" where
  "ex_bad_empty_loop = scandir_loop ex_cfg ex_root ex_root 0 0
     [File ex_bad_name (Inr (ex_stat 0 0))] frame0 (start_state ex_env ex_root)"

text \<open>The pass over the root whose only entry is an empty file.\<close>

definition ex_empty_pass :: "(aggregate \<times> crawl_state) proc" where
  "ex_empty_pass = get_tree_attr ex_cfg ex_root ex_root (Inr (ex_stat 4096 8))
     (Some ([] @ File [97] (Inr (ex_stat 0 0)) # [])) 0 0 (start_state ex_env ex_root)"

text \<open>
  The pass over a root with three files of which the second has vanished, and over
  the same root without that entry.
\<close>

definition ex_vanish_pass :: "(aggregate \<times> crawl_state) proc" where
  "ex_vanish_pass = get_tree_attr ex_cfg ex_root ex_root (Inr (ex_stat 4096 8))
     (Some ([File [97] (Inr (ex_stat 10 1))] @ File [98] (Inl ()) # [File [99] (Inr (ex_stat 5 1))]))
     0 0 (start_state ex_env ex_root)"

definition ex_clean_pass :: "(aggregate \<times> crawl_state) proc" where
  "ex_clean_pass = get_tree_attr ex_cfg ex_root ex_root (Inr (ex_stat 4096 8))
     (Some [File [97] (Inr (ex_stat 10 1)), File [99] (Inr (ex_stat 5 1))])
     0 0 (start_state ex_env ex_root)"

definition ex_first_loop :: "(flow \<times> frame \<times> crawl_state) proc" where
  "ex_first_loop = scandir_loop ex_cfg ex_root ex_root 0 0 [File [97] (Inr (ex_stat 10 1))]
     frame0 (start_state ex_env ex_root)"

text \<open>
  Below the root: a directory \<^verbatim>\<open>/r/d\<close> whose only entry is an empty directory \<^verbatim>\<open>e\<close>, and
  a directory \<^verbatim>\<open>/r/d\<close> whose entries are two symbolic links.
\<close>

definition ex_nested_pass :: "(aggregate \<times> crawl_state) proc" where
  "ex_nested_pass = get_tree_attr ex_cfg ex_root [47, 114, 47, 100] (Inr (ex_stat 4096 8))
     (Some [Dir [101] (Inr (ex_stat 4096 8)) (Some [])]) 1 999 (start_state ex_env ex_root)"

definition ex_links_pass :: "(aggregate \<times> crawl_state) proc" where
  "ex_links_pass = get_tree_attr ex_cfg ex_root [47, 114, 47, 100] (Inr (ex_stat 4096 8))
     (Some [Symlink [108], Symlink [109]]) 1 999 (start_state ex_env ex_root)"

text \<open>The task of the subdirectory \<^verbatim>\<open>/r/b\<close> that holds a file and a directory with a file.\<close>

definition ex_sub_listing :: "fsnode list" where
  "ex_sub_listing = [File [99] (Inr (ex_stat 20 1)),
     Dir [100] (Inr (ex_stat 4096 8)) (Some [File [101] (Inr (ex_stat 5 1))])]"

definition ex_sub_pass :: "(aggregate \<times> crawl_state) proc" where
  "ex_sub_pass = get_tree_attr ex_cfg ex_root [47, 114, 47, 98] (Inr (ex_stat 4096 8))
     (Some ex_sub_listing) 1 999 (start_state ex_env ex_root)"

definition ex_sub_loop :: "(flow \<times> frame \<times> crawl_state) proc" where
  "ex_sub_loop = scandir_loop ex_cfg ex_root [47, 114, 47, 98] 1 999 ex_sub_listing frame0
     (start_state ex_env ex_root)"

section \<open>Properties of the steps\<close>

lemma then_proc_Inr: "then_proc m f = Inr y \<longleftrightarrow> (\<exists>x. m = Inr x \<and> f x = Inr y)"
  by (cases m) (simp_all add: then_proc_def)

lemma begin_bulk_Inr:
  "begin_bulk docs st = Inr st' \<longleftrightarrow>
     accepts (es st) docs \<and> st' = st\<lparr>es := (es st)\<lparr>bulks := bulks (es st) @ [docs]\<rparr>\<rparr>"
  by (auto simp: begin_bulk_def exit_app_critical_error_def)

lemma append_document_Inr:
  assumes "append_document cfg d l st = Inr (l', st')"
  shows "(int (length (documents st)) + 1 < elastic_chunksize cfg \<and> l' = l \<and>
            st' = st\<lparr>documents := documents st @ [d]\<rparr>) \<or>
         (elastic_chunksize cfg \<le> int (length (documents st)) + 1 \<and>
            accepts (es st) (documents st @ [d]) \<and>
            l' = l\<lparr>l_total_docs := l_total_docs l + (int (length (documents st)) + 1)\<rparr> \<and>
            st' = st\<lparr>documents := [],
                      es := (es st)\<lparr>bulks := bulks (es st) @ [documents st @ [d]]\<rparr>\<rparr>)"
  using assms
  by (auto simp: append_document_def Let_def begin_bulk_def exit_app_critical_error_def
           split: if_splits sum.splits)


lemma handle_unicode_lossy: "\<exists>v. handle_unicode f True = Inr v"
  by (simp add: handle_unicode_def)

lemma file_names_total: "\<exists>p fn w. file_names cp n pp = Inr (p, fn, w)"
  by (auto simp: file_names_def get_parent_path_def get_file_name_def handle_unicode_def
           split: option.splits sum.splits)


lemma dir_names_total: "\<exists>fn p w. dir_names path = Inr (fn, p, w)"
  by (auto simp: dir_names_def get_parent_path_def get_dir_name_def handle_unicode_def
           split: option.splits sum.splits)


lemma visit_file_zero:
  "st_size fs \<le> 0 \<Longrightarrow>
   visit_file cfg path name fs l st = Inr (l\<lparr>l_file_skip_count := l_file_skip_count l + 1\<rparr>, st)"
  by (simp add: visit_file_def Let_def)

lemma visit_file_pos:
  assumes "0 < st_size fs"
  shows "\<exists>p fn w. file_names (path_join path name) name (l_parent_path l) = Inr (p, fn, w) \<and>
           visit_file cfg path name fs l st =
             append_document cfg (FileDoc (file_data cfg name fs fn p))
               (l\<lparr>l_size := l_size l + st_size fs,
                  l_size_du := l_size_du l + st_blocks fs * blocksize cfg,
                  l_files := l_files l + 1, l_parent_path := Some p\<rparr>)
               (if w then st\<lparr>warnings := Suc (warnings st)\<rparr> else st)"
proof -
  obtain p fn w where
    "file_names (path_join path name) name (l_parent_path l) = Inr (p, fn, w)"
    using file_names_total by blast
  with assms show ?thesis by (simp add: visit_file_def Let_def)
qed

lemma finish_dir_skip:
  assumes "\<not> (l_files l > 0 \<or> l_dirs l > 0)"
  shows "finish_dir cfg root path ds depth l st =
     Inr (l\<lparr>l_dir_skip_count := l_dir_skip_count l + 1\<rparr>,
          update_counters (l\<lparr>l_dir_skip_count := l_dir_skip_count l + 1\<rparr>) st)"
  using assms by (simp add: finish_dir_def)

lemma finish_dir_record:
  assumes "l_files l > 0 \<or> l_dirs l > 0"
  shows "\<exists>fn p w. dir_names path = Inr (fn, p, w) \<and>
     finish_dir cfg root path ds depth l st =
       (case (if depth > 0
              then append_document cfg (DirDoc (dir_data_of ds fn p l)) (l\<lparr>l_parent_path := Some p\<rparr>)
                     (if w then st\<lparr>warnings := Suc (warnings st)\<rparr> else st)
              else Inr (l\<lparr>l_parent_path := Some p\<rparr>,
                        (if w then st\<lparr>warnings := Suc (warnings st)\<rparr> else st)
                          \<lparr>sizes := (sizes st)(root \<mapsto> dir_data_of ds fn p l)\<rparr>))
        of Inl c \<Rightarrow> Inl c | Inr (l2, st2) \<Rightarrow> Inr (l2, update_counters l2 st2))"
proof -
  obtain fn p w where "dir_names path = Inr (fn, p, w)"
    using dir_names_total by blast
  with assms show ?thesis
    by (auto simp: finish_dir_def Let_def update_counters_def split: sum.splits)
qed


lemma finish_dir_cases:
  assumes "finish_dir cfg root path ds depth l st = Inr (l', st')"
  shows "(\<not> (l_files l > 0 \<or> l_dirs l > 0) \<and>
            l' = l\<lparr>l_dir_skip_count := l_dir_skip_count l + 1\<rparr> \<and> st' = update_counters l' st) \<or>
         ((l_files l > 0 \<or> l_dirs l > 0) \<and> 0 < depth \<and>
            (\<exists>fn p w l2 s2. dir_names path = Inr (fn, p, w) \<and>
               append_document cfg (DirDoc (dir_data_of ds fn p l)) (l\<lparr>l_parent_path := Some p\<rparr>)
                 (if w then st\<lparr>warnings := Suc (warnings st)\<rparr> else st) = Inr (l2, s2) \<and>
               l' = l2 \<and> st' = update_counters l2 s2)) \<or>
         ((l_files l > 0 \<or> l_dirs l > 0) \<and> depth = 0 \<and>
            (\<exists>fn p w. dir_names path = Inr (fn, p, w) \<and>
               l' = l\<lparr>l_parent_path := Some p\<rparr> \<and>
               st' = update_counters l'
                 ((if w then st\<lparr>warnings := Suc (warnings st)\<rparr> else st)
                    \<lparr>sizes := (sizes st)(root \<mapsto> dir_data_of ds fn p l)\<rparr>)))"
proof (cases "l_files l > 0 \<or> l_dirs l > 0")
  case False
  with assms finish_dir_skip[OF False, of cfg root path ds depth st] show ?thesis by auto
next
  case True
  from finish_dir_record[OF True, of path cfg root ds depth st] obtain fn p w where
    dn: "dir_names path = Inr (fn, p, w)" and
    fd: "finish_dir cfg root path ds depth l st =
       (case (if depth > 0
              then append_document cfg (DirDoc (dir_data_of ds fn p l)) (l\<lparr>l_parent_path := Some p\<rparr>)
                     (if w then st\<lparr>warnings := Suc (warnings st)\<rparr> else st)
              else Inr (l\<lparr>l_parent_path := Some p\<rparr>,
                        (if w then st\<lparr>warnings := Suc (warnings st)\<rparr> else st)
                          \<lparr>sizes := (sizes st)(root \<mapsto> dir_data_of ds fn p l)\<rparr>))
        of Inl c \<Rightarrow> Inl c | Inr (l2, st2) \<Rightarrow> Inr (l2, update_counters l2 st2))"
    by blast
  show ?thesis
  proof (cases "0 < depth")
    case d: True
    with fd assms obtain l2 s2 where
      "append_document cfg (DirDoc (dir_data_of ds fn p l)) (l\<lparr>l_parent_path := Some p\<rparr>)
         (if w then st\<lparr>warnings := Suc (warnings st)\<rparr> else st) = Inr (l2, s2)"
      and "l' = l2" and "st' = update_counters l2 s2"
      by (auto split: sum.splits)
    with True d dn show ?thesis by blast
  next
    case d: False
    with fd assms have "l' = l\<lparr>l_parent_path := Some p\<rparr>"
      and "st' = update_counters l'
                 ((if w then st\<lparr>warnings := Suc (warnings st)\<rparr> else st)
                    \<lparr>sizes := (sizes st)(root \<mapsto> dir_data_of ds fn p l)\<rparr>)"
      by auto
    with True d dn show ?thesis by blast
  qed
qed

lemma visit_file_cases:
  assumes "visit_file cfg path name fs l st = Inr (l', st')"
  shows "(st_size fs \<le> 0 \<and> l' = l\<lparr>l_file_skip_count := l_file_skip_count l + 1\<rparr> \<and> st' = st) \<or>
         (0 < st_size fs \<and>
            (\<exists>p fn w. file_names (path_join path name) name (l_parent_path l) = Inr (p, fn, w) \<and>
               append_document cfg (FileDoc (file_data cfg name fs fn p))
                 (l\<lparr>l_size := l_size l + st_size fs,
                    l_size_du := l_size_du l + st_blocks fs * blocksize cfg,
                    l_files := l_files l + 1, l_parent_path := Some p\<rparr>)
                 (if w then st\<lparr>warnings := Suc (warnings st)\<rparr> else st) = Inr (l', st')))"
proof (cases "0 < st_size fs")
  case True
  from visit_file_pos[OF True, of path name l cfg st] obtain p fn w where
    fnm: "file_names (path_join path name) name (l_parent_path l) = Inr (p, fn, w)" and
    "visit_file cfg path name fs l st =
       append_document cfg (FileDoc (file_data cfg name fs fn p))
         (l\<lparr>l_size := l_size l + st_size fs,
            l_size_du := l_size_du l + st_blocks fs * blocksize cfg,
            l_files := l_files l + 1, l_parent_path := Some p\<rparr>)
         (if w then st\<lparr>warnings := Suc (warnings st)\<rparr> else st)"
    by blast
  with assms have "append_document cfg (FileDoc (file_data cfg name fs fn p))
         (l\<lparr>l_size := l_size l + st_size fs,
            l_size_du := l_size_du l + st_blocks fs * blocksize cfg,
            l_files := l_files l + 1, l_parent_path := Some p\<rparr>)
         (if w then st\<lparr>warnings := Suc (warnings st)\<rparr> else st) = Inr (l', st')"
    by simp
  with True fnm show ?thesis by blast
next
  case False
  then have "st_size fs \<le> 0" by simp
  from visit_file_zero[OF this, of cfg path name l st] assms False show ?thesis by auto
qed

text \<open>Instances of the relations for the two steps.\<close>

lemma keeps_rest_refl: "keeps_rest cfg root s s"
  by (simp add: keeps_rest_def)

lemma keeps_rest_trans:
  "keeps_rest cfg root s1 s2 \<Longrightarrow> keeps_rest cfg root s2 s3 \<Longrightarrow> keeps_rest cfg root s1 s3"
  by (simp add: keeps_rest_def)

lemma keeps_rest_append:
  "append_document cfg d l st = Inr (l', st') \<Longrightarrow> keeps_rest cfg root st st'"
  by (drule append_document_Inr) (auto simp: keeps_rest_def)

lemma keeps_rest_visit:
  "visit_file cfg path name fs l st = Inr (l', st') \<Longrightarrow> keeps_rest cfg root st st'"
  by (drule visit_file_cases)
     (auto simp: keeps_rest_def dest!: keeps_rest_append[where root = root] split: if_splits)

lemma keeps_rest_finish:
  "finish_dir cfg root path ds depth l st = Inr (l', st') \<Longrightarrow> keeps_rest cfg root st st'"
  by (drule finish_dir_cases)
     (auto simp: keeps_rest_def update_counters_def dest!: keeps_rest_append[where root = root]
           split: if_splits)

lemma keeps_sizes_append:
  "append_document cfg d l st = Inr (l', st') \<Longrightarrow> sizes st' = sizes st"
  by (drule append_document_Inr) auto

lemma keeps_sizes_visit:
  "visit_file cfg path name fs l st = Inr (l', st') \<Longrightarrow> keeps_sizes cfg root st st'"
  by (drule visit_file_cases)
     (auto simp: keeps_sizes_def dest!: keeps_sizes_append split: if_splits)

lemma keeps_sizes_finish:
  "0 < depth \<Longrightarrow> finish_dir cfg root path ds depth l st = Inr (l', st') \<Longrightarrow>
   keeps_sizes cfg root st st'"
  by (drule finish_dir_cases)
     (auto simp: keeps_sizes_def update_counters_def dest!: keeps_sizes_append split: if_splits)

lemma tree_rel_aux:
  fixes R :: "config \<Rightarrow> pystr \<Rightarrow> crawl_state \<Rightarrow> crawl_state \<Rightarrow> bool"
  assumes R_refl: "\<And>cfg root s. R cfg root s s"
    and R_trans: "\<And>cfg root s1 s2 s3. R cfg root s1 s2 \<Longrightarrow> R cfg root s2 s3 \<Longrightarrow> R cfg root s1 s3"
    and R_warn: "\<And>cfg root s. R cfg root s (s\<lparr>warnings := Suc (warnings s)\<rparr>)"
    and R_file: "\<And>cfg root path name f_stat l s l' s'.
        visit_file cfg path name f_stat l s = Inr (l', s') \<Longrightarrow> R cfg root s s'"
    and R_fin: "\<And>cfg root path dir_stat depth l s l' s'.
        d0 \<le> depth \<Longrightarrow> finish_dir cfg root path dir_stat depth l s = Inr (l', s') \<Longrightarrow> R cfg root s s'"
  shows "get_tree_attr cfg root path dstat listing depth maxdepth st = Inr (a, st') \<Longrightarrow>
           d0 \<le> depth \<Longrightarrow> R cfg root st st'"
    and "scandir_loop cfg root path depth maxdepth entries l st = Inr (f, l', st') \<Longrightarrow>
           d0 \<le> depth \<Longrightarrow> R cfg root st st'"
proof (induction cfg root path dstat listing depth maxdepth st
         and cfg root path depth maxdepth entries l st
       arbitrary: a st' and f l' st'
       rule: get_tree_attr_scandir_loop.induct)
  case (1 cfg root path uu listing depth maxdepth st)
  then show ?case using R_warn by auto
next
  case (2 cfg root path dir_stat depth maxdepth st)
  then show ?case using R_warn by auto
next
  case (3 cfg root path dir_stat entries depth maxdepth st)
  from "3.prems"(1) obtain fl l1 s1 where
    lp: "scandir_loop cfg root path depth maxdepth entries frame0 st = Inr (fl, l1, s1)"
    by (auto split: sum.splits)
  have a: "R cfg root st s1" using "3.IH"[OF lp "3.prems"(2)] .
  show ?case
  proof (cases fl)
    case Normal
    with lp "3.prems"(1) obtain l2 where
      "finish_dir cfg root path dir_stat depth l1 s1 = Inr (l2, st')"
      by (auto split: sum.splits)
    then have "R cfg root s1 st'" using R_fin "3.prems"(2) by blast
    with a show ?thesis by (rule R_trans)
  next
    case Raised_OSError
    with lp "3.prems"(1) have "st' = s1\<lparr>warnings := Suc (warnings s1)\<rparr>" by auto
    then have "R cfg root s1 st'" using R_warn by simp
    with a show ?thesis by (rule R_trans)
  qed
next
  case (4 cfg root path depth maxdepth l st)
  then show ?case using R_refl by auto
next
  case (5 cfg root path depth maxdepth name rest l st)
  then show ?case by auto
next
  case (6 cfg root path depth maxdepth name dstat listing rest l st)
  show ?case
  proof (cases "0 < maxdepth \<and> int depth < maxdepth \<and> \<not> quit st")
    case True
    with "6.prems" obtain b s1 where
      g: "get_tree_attr cfg root (path_join path name) dstat listing (depth + 1) maxdepth st = Inr (b, s1)"
      by (auto simp: Let_def split: sum.splits prod.splits)
    obtain b1 b2 b3 b4 where b: "b = (b1, b2, b3, b4)" by (cases b) auto
    from True g b "6.prems" have
      r: "scandir_loop cfg root path depth maxdepth rest
            (l\<lparr>l_d_count := l_d_count l + 1, l_dirs := l_dirs l + 1,
               l_size := l_size l + b1, l_size_du := l_size_du l + b2,
               l_files := l_files l + b3, l_dirs := l_dirs l + 1 + b4\<rparr>) s1 = Inr (f, l', st')"
      by (simp add: Let_def)
    have "R cfg root st s1" using "6.IH"(1)[OF refl True g] "6.prems"(2) by simp
    moreover have "R cfg root s1 st'"
      using "6.IH"(2)[OF refl True g refl] b r "6.prems"(2) by simp
    ultimately show ?thesis by (rule R_trans)
  next
    case False
    with "6.prems" "6.IH"(3)[OF refl False] show ?thesis by (simp add: Let_def)
  qed
next
  case (7 cfg root path depth maxdepth name fstat rest l st)
  from "7.prems"(1) obtain fs where fs: "fstat = Inr fs \<or> (st' = st)"
    by (cases fstat) (auto simp: Let_def)
  show ?case
  proof (cases fstat)
    case (Inl u)
    with "7.prems"(1) have "st' = st" by (simp add: Let_def)
    then show ?thesis using R_refl by simp
  next
    case (Inr fs)
    with "7.prems"(1) obtain l2 s1 where
      v: "visit_file cfg path name fs (l\<lparr>l_f_count := l_f_count l + 1\<rparr>) st = Inr (l2, s1)"
      and r: "scandir_loop cfg root path depth maxdepth rest l2 s1 = Inr (f, l', st')"
      by (auto simp: Let_def split: sum.splits prod.splits)
    have "R cfg root st s1" using R_file v by blast
    moreover have "R cfg root s1 st'" using "7.IH"[OF refl Inr v refl r "7.prems"(2)] .
    ultimately show ?thesis by (rule R_trans)
  qed
qed


lemma keeps_rest_warn: "keeps_rest cfg root s (s\<lparr>warnings := Suc (warnings s)\<rparr>)"
  by (simp add: keeps_rest_def)

lemma get_tree_attr_keeps_rest:
  assumes "get_tree_attr cfg root path dstat listing depth maxdepth st = Inr (a, st')"
  shows "keeps_rest cfg root st st'"
proof (rule tree_rel_aux(1)[where R = keeps_rest and ?d0.0 = 0, OF _ _ _ _ _ assms])
  show "0 \<le> depth" by simp
qed (blast intro: keeps_rest_refl keeps_rest_trans keeps_rest_warn keeps_rest_visit
       keeps_rest_finish)+

lemma keeps_sizes_refl: "keeps_sizes cfg root s s"
  by (simp add: keeps_sizes_def)

lemma keeps_sizes_trans:
  "keeps_sizes cfg root s1 s2 \<Longrightarrow> keeps_sizes cfg root s2 s3 \<Longrightarrow> keeps_sizes cfg root s1 s3"
  by (simp add: keeps_sizes_def)

lemma keeps_sizes_warn: "keeps_sizes cfg root s (s\<lparr>warnings := Suc (warnings s)\<rparr>)"
  by (simp add: keeps_sizes_def)

lemma keeps_sizes_finish':
  "(1::nat) \<le> depth \<Longrightarrow> finish_dir cfg root path ds depth l st = Inr (l', st') \<Longrightarrow>
   keeps_sizes cfg root st st'"
  by (rule keeps_sizes_finish) simp_all

lemma get_tree_attr_keeps_sizes:
  assumes "get_tree_attr cfg root path dstat listing depth maxdepth st = Inr (a, st')"
    and "0 < depth"
  shows "sizes st' = sizes st"
proof -
  have "keeps_sizes cfg root st st'"
  proof (rule tree_rel_aux(1)[where R = keeps_sizes and ?d0.0 = 1, OF _ _ _ _ _ assms(1)])
    show "1 \<le> depth" using assms(2) by simp
  qed (blast intro: keeps_sizes_refl keeps_sizes_trans keeps_sizes_warn keeps_sizes_visit
         keeps_sizes_finish')+
  then show ?thesis by (simp add: keeps_sizes_def)
qed

lemma exit_status_Inl [simp]: "exit_status (Inl c) = Some c"
  by (simp add: exit_status_def)

lemma exit_status_Inr [simp]: "exit_status (Inr x) = None"
  by (simp add: exit_status_def)

lemma then_proc_Inl:
  "then_proc m f = Inl c \<longleftrightarrow> m = Inl c \<or> (\<exists>x. m = Inr x \<and> f x = Inl c)"
  by (cases m) (simp_all add: then_proc_def)

lemma begin_bulk_Inl: "begin_bulk docs st = Inl c \<Longrightarrow> c = 1"
  by (simp add: begin_bulk_def exit_app_critical_error_def split: if_splits)

lemma append_document_Inl: "append_document cfg d l st = Inl c \<Longrightarrow> c = 1"
  by (auto simp: append_document_def Let_def split: if_splits sum.splits dest: begin_bulk_Inl)

lemma visit_file_Inl: "visit_file cfg path name fs l st = Inl c \<Longrightarrow> c = 1"
  by (auto simp: visit_file_def Let_def exit_app_critical_error_def
           split: if_splits sum.splits prod.splits dest: append_document_Inl)

lemma finish_dir_Inl: "finish_dir cfg root path ds depth l st = Inl c \<Longrightarrow> c = 1"
  by (auto simp: finish_dir_def Let_def exit_app_critical_error_def
           split: if_splits sum.splits prod.splits dest: append_document_Inl)

lemma get_tree_attr_Inl:
  shows "get_tree_attr cfg root path dstat listing depth maxdepth st = Inl c \<Longrightarrow> c = 1"
    and "scandir_loop cfg root path depth maxdepth entries l st = Inl c \<Longrightarrow> c = 1"
proof (induction cfg root path dstat listing depth maxdepth st
         and cfg root path depth maxdepth entries l st
       rule: get_tree_attr_scandir_loop.induct)
  case (3 cfg root path dir_stat entries depth maxdepth st)
  then show ?case
    by (auto split: sum.splits flow.splits prod.splits dest: finish_dir_Inl)
next
  case (6 cfg root path depth maxdepth name dstat listing rest l st)
  then show ?case
    by (auto simp: Let_def split: sum.splits prod.splits if_splits)
next
  case (7 cfg root path depth maxdepth name fstat rest l st)
  then show ?case
    by (auto simp: Let_def split: sum.splits prod.splits dest: visit_file_Inl)
qed simp_all

lemma sizes_add_Inl: "sizes_add g u root t st = Inl c \<Longrightarrow> c = 1"
  by (auto simp: sizes_add_def exit_app_critical_error_def split: option.splits)

lemma flush_remainder_Inl: "flush_remainder st = Inl c \<Longrightarrow> c = 1"
  by (auto simp: flush_remainder_def Let_def then_proc_Inl split: if_splits dest: begin_bulk_Inl)

lemma merge_top_Inl: "merge_top root t agg st = Inl c \<Longrightarrow> c = 1"
  by (auto simp: merge_top_def Let_def then_proc_Inl split: if_splits prod.splits
           dest: sizes_add_Inl)

lemma crawl_thread_Inl:
  "crawl_thread cfg root t dstat listing depth maxdepth st = Inl c \<Longrightarrow> c = 1"
  by (auto simp: crawl_thread_def then_proc_Inl split: if_splits prod.splits
           dest: get_tree_attr_Inl(1) flush_remainder_Inl merge_top_Inl)

lemma run_tasks_Inl: "run_tasks cfg root maxdepth ts st = Inl c \<Longrightarrow> c = 1"
  by (induction cfg root maxdepth ts st rule: run_tasks.induct)
     (auto split: sum.splits dest: crawl_thread_Inl)

lemma crawl_Inl: "crawl cfg order root rstat rlisting maxdepth st = Inl c \<Longrightarrow> c = 1"
  by (auto simp: crawl_def then_proc_Inl exit_app_critical_error_def split: option.splits
           dest: crawl_thread_Inl run_tasks_Inl)

lemma flush_remainder_Inr:
  assumes "flush_remainder st = Inr st'"
  shows "(documents st = [] \<and> st' = st) \<or>
         (documents st \<noteq> [] \<and> accepts (es st) (documents st) \<and>
          st' = st\<lparr>es := (es st)\<lparr>bulks := bulks (es st) @ [documents st]\<rparr>,
                    total_documents := total_documents st + int (length (documents st)),
                    documents := []\<rparr>)"
  using assms
  by (auto simp: flush_remainder_def Let_def then_proc_Inr begin_bulk_Inr split: if_splits)

lemma sizes_add_Inr:
  "sizes_add g u root t st = Inr st' \<longleftrightarrow>
     (\<exists>r x. sizes st root = Some r \<and> sizes st t = Some x \<and>
        st' = st\<lparr>sizes := (sizes st)(root \<mapsto> u (\<lambda>v. v + g x) r)\<rparr>)"
  by (auto simp: sizes_add_def exit_app_critical_error_def split: option.splits)

lemma merge_top_Inr:
  assumes "merge_top root t (a, b, c, d) st = Inr st'" and "t \<noteq> root"
  shows "(a \<le> 0 \<and> st' = st\<lparr>sizes := (sizes st)(t \<mapsto>
                \<lparr>dd_size = a, dd_size_du = b, dd_file_count = c, dd_dir_count = d,
                 dd_ident = None\<rparr>)\<rparr>) \<or>
         (0 < a \<and> (\<exists>r r'. sizes st root = Some r \<and>
            st' = st\<lparr>sizes := (sizes st)(t \<mapsto>
                \<lparr>dd_size = a, dd_size_du = b, dd_file_count = c, dd_dir_count = d,
                 dd_ident = None\<rparr>, root \<mapsto> r')\<rparr> \<and>
            dd_size r' = dd_size r + a \<and> dd_size_du r' = dd_size_du r + b \<and>
            dd_file_count r' = dd_file_count r + c \<and>
            dd_dir_count r' = dd_dir_count r + d \<and> dd_ident r' = dd_ident r))"
proof (cases "0 < a")
  case False
  with assms show ?thesis by (simp add: merge_top_def Let_def)
next
  case True
  with assms obtain r where r: "sizes st root = Some r" and
    st': "st' = st\<lparr>sizes := (sizes st)(t \<mapsto>
                \<lparr>dd_size = a, dd_size_du = b, dd_file_count = c, dd_dir_count = d,
                 dd_ident = None\<rparr>,
                root \<mapsto> dd_file_count_update (\<lambda>v. v + c)
                   (dd_dir_count_update (\<lambda>v. v + d)
                     (dd_size_du_update (\<lambda>v. v + b)
                       (dd_size_update (\<lambda>v. v + a) r))))\<rparr>"
    by (auto simp: merge_top_def Let_def then_proc_Inr sizes_add_Inr split: if_splits)
  have "dd_size (dd_file_count_update (\<lambda>v. v + c)
                   (dd_dir_count_update (\<lambda>v. v + d)
                     (dd_size_du_update (\<lambda>v. v + b)
                       (dd_size_update (\<lambda>v. v + a) r)))) = dd_size r + a" by simp
  with True r st' show ?thesis by auto
qed

lemma crawl_thread_Inr:
  "crawl_thread cfg root t dstat listing depth maxdepth st = Inr st' \<longleftrightarrow>
     (\<exists>agg s1 s3. get_tree_attr cfg root t dstat listing depth maxdepth (st\<lparr>documents := []\<rparr>)
                     = Inr (agg, s1) \<and>
        flush_remainder s1 = Inr s3 \<and>
        (if depth > 0 then merge_top root t agg s3 else Inr s3) = Inr st')"
  by (auto simp: crawl_thread_def then_proc_Inr)

lemma exit_status_None: "exit_status r = None \<Longrightarrow> r = Inr (projr r)"
  by (cases r) (simp_all add: exit_status_def)

lemma flush_remainder_keeps_rest:
  "flush_remainder st = Inr st' \<Longrightarrow> keeps_rest cfg root st st'"
  by (drule flush_remainder_Inr) (auto simp: keeps_rest_def)

lemma merge_top_keeps_rest:
  "merge_top root t agg st = Inr st' \<Longrightarrow> keeps_rest cfg root st st'"
  by (auto simp: merge_top_def Let_def then_proc_Inr sizes_add_Inr keeps_rest_def
           split: if_splits prod.splits)

lemma crawl_thread_keeps_rest:
  assumes "crawl_thread cfg root t dstat listing depth maxdepth st = Inr st'"
  shows "keeps_rest cfg root st st'"
proof -
  from assms obtain agg s1 s3 where
    g: "get_tree_attr cfg root t dstat listing depth maxdepth (st\<lparr>documents := []\<rparr>) = Inr (agg, s1)"
    and f: "flush_remainder s1 = Inr s3"
    and m: "(if depth > 0 then merge_top root t agg s3 else Inr s3) = Inr st'"
    unfolding crawl_thread_Inr by blast
  have "keeps_rest cfg root st (st\<lparr>documents := []\<rparr>)" by (simp add: keeps_rest_def)
  moreover have "keeps_rest cfg root (st\<lparr>documents := []\<rparr>) s1"
    using g by (rule get_tree_attr_keeps_rest)
  moreover have "keeps_rest cfg root s1 s3" using f by (rule flush_remainder_keeps_rest)
  moreover have "keeps_rest cfg root s3 st'"
    using m by (auto split: if_splits intro: merge_top_keeps_rest keeps_rest_refl)
  ultimately show ?thesis by (blast intro: keeps_rest_trans)
qed

lemma run_tasks_keeps_rest:
  "run_tasks cfg root maxdepth ts st = Inr st' \<Longrightarrow> keeps_rest cfg root st st'"
proof (induction cfg root maxdepth ts st rule: run_tasks.induct)
  case (1 cfg root maxdepth st)
  then show ?case by (simp add: keeps_rest_refl)
next
  case (2 cfg root maxdepth t dstat listing rest st)
  from "2.prems" obtain s1 where
    c: "crawl_thread cfg root t dstat listing 1 maxdepth st = Inr s1"
    and r: "run_tasks cfg root maxdepth rest s1 = Inr st'"
    by (auto split: sum.splits)
  from crawl_thread_keeps_rest[OF c] "2.IH"[OF c r] show ?case
    by (rule keeps_rest_trans)
qed

lemma crawl_Inr:
  "crawl cfg order root rstat rlisting maxdepth st = Inr st' \<longleftrightarrow>
     (\<exists>entries s1 s2. rlisting = Some entries \<and>
        crawl_thread cfg root root rstat rlisting 0 0 st = Inr s1 \<and>
        run_tasks cfg root maxdepth (order (subdir_list root entries)) s1 = Inr s2 \<and>
        st' = finish_crawl root s2)"
  by (auto simp: crawl_def then_proc_Inr exit_app_critical_error_def split: option.splits)

lemma finish_crawl_sizes: "sizes (finish_crawl root st) = sizes st"
  by (simp add: finish_crawl_def Let_def index_end_def split: option.splits)

lemma finish_crawl_quit: "quit (finish_crawl root st) = quit st"
  by (simp add: finish_crawl_def Let_def index_end_def split: option.splits)

lemma finish_crawl_warnings: "warnings (finish_crawl root st) = warnings st"
  by (simp add: finish_crawl_def Let_def index_end_def split: option.splits)

lemma crawl_quit:
  assumes "crawl cfg order root rstat rlisting maxdepth st = Inr st'"
  shows "quit st' = quit st"
proof -
  from assms obtain entries s1 s2 where
    a: "crawl_thread cfg root root rstat rlisting 0 0 st = Inr s1"
    and b: "run_tasks cfg root maxdepth (order (subdir_list root entries)) s1 = Inr s2"
    and c: "st' = finish_crawl root s2"
    unfolding crawl_Inr by blast
  from crawl_thread_keeps_rest[OF a] run_tasks_keeps_rest[OF b] c show ?thesis
    by (simp add: keeps_rest_def finish_crawl_quit)
qed

lemma scan_prepare_Inl: "scan_prepare env index path = Inl c \<Longrightarrow> c = 0 \<or> c = 1"
  by (auto simp: scan_prepare_def Let_def split: if_splits option.splits)

lemma start_state_quit: "\<not> quit (start_state env root)"
  by (simp add: start_state_def initial_state_def Let_def)

lemma append_document_frame:
  assumes "append_document cfg d l st = Inr (l', st')"
  shows "l_size l' = l_size l \<and> l_size_du l' = l_size_du l \<and> l_files l' = l_files l \<and>
         l_dirs l' = l_dirs l \<and> l_f_count l' = l_f_count l \<and> l_d_count l' = l_d_count l \<and>
         l_file_skip_count l' = l_file_skip_count l \<and> l_dir_skip_count l' = l_dir_skip_count l \<and>
         l_parent_path l' = l_parent_path l"
  using append_document_Inr[OF assms] by auto

lemma visit_file_frame:
  assumes "visit_file cfg path name fs l st = Inr (l', st')"
  shows "l_dirs l' = l_dirs l \<and> l_d_count l' = l_d_count l \<and> l_f_count l' = l_f_count l \<and>
         l_dir_skip_count l' = l_dir_skip_count l \<and>
         (if 0 < st_size fs
          then l_size l' = l_size l + st_size fs \<and>
               l_size_du l' = l_size_du l + st_blocks fs * blocksize cfg \<and>
               l_files l' = l_files l + 1 \<and> l_file_skip_count l' = l_file_skip_count l
          else l_size l' = l_size l \<and> l_size_du l' = l_size_du l \<and> l_files l' = l_files l \<and>
               l_file_skip_count l' = l_file_skip_count l + 1)"
  using visit_file_cases[OF assms] by (auto dest!: append_document_frame)

lemma finish_dir_frame:
  assumes "finish_dir cfg root path ds depth l st = Inr (l', st')"
  shows "frame_result l' = frame_result l \<and> l_f_count l' = l_f_count l \<and>
         l_d_count l' = l_d_count l \<and> l_file_skip_count l' = l_file_skip_count l"
  using finish_dir_cases[OF assms] by (auto simp: frame_result_def dest!: append_document_frame)

lemma frame_ok_frame0: "frame_ok frame0"
  by (simp add: frame_ok_def frame0_def)

lemma visit_file_frame_ok:
  "visit_file cfg path name fs l st = Inr (l', st') \<Longrightarrow> frame_ok l \<Longrightarrow> frame_ok l'"
  by (drule visit_file_frame) (auto simp: frame_ok_def split: if_splits)

text \<open>
  The aggregate that \<^verbatim>\<open>get_tree_attr\<close> returns is never negative, and it has no size
  only when it has no file; the loop never lowers its counts of files and
  directories, and a subdirectory entry raises the count of directories.
\<close>

lemma get_tree_attr_frame_ok:
  shows "get_tree_attr cfg root path dstat listing depth maxdepth st = Inr (agg, st') \<Longrightarrow>
           \<exists>l. agg = frame_result l \<and> frame_ok l"
    and "scandir_loop cfg root path depth maxdepth entries l st = Inr (f, l', st') \<Longrightarrow>
           frame_ok l \<Longrightarrow>
           frame_ok l' \<and> l_dirs l \<le> l_dirs l' \<and> l_files l \<le> l_files l' \<and>
           (f = Normal \<and> list_ex is_dir entries \<longrightarrow> l_dirs l < l_dirs l')"
proof (induction cfg root path dstat listing depth maxdepth st
         and cfg root path depth maxdepth entries l st
       arbitrary: agg st' and f l' st'
       rule: get_tree_attr_scandir_loop.induct)
  case (1 cfg root path uu listing depth maxdepth st)
  then have "agg = frame_result frame0" by (auto simp: frame_result_def frame0_def)
  then show ?case using frame_ok_frame0 by blast
next
  case (2 cfg root path dir_stat depth maxdepth st)
  then have "agg = frame_result frame0" by auto
  then show ?case using frame_ok_frame0 by blast
next
  case (3 cfg root path dir_stat entries depth maxdepth st)
  from "3.prems" obtain fl l1 s1 where
    lp: "scandir_loop cfg root path depth maxdepth entries frame0 st = Inr (fl, l1, s1)"
    by (auto split: sum.splits)
  from "3.IH"[OF lp frame_ok_frame0] have ok: "frame_ok l1" by simp
  show ?case
  proof (cases fl)
    case Normal
    with lp "3.prems" obtain l2 where
      fd: "finish_dir cfg root path dir_stat depth l1 s1 = Inr (l2, st')" and "agg = frame_result l2"
      by (auto split: sum.splits)
    with finish_dir_frame[OF fd] have "agg = frame_result l1" by simp
    with ok show ?thesis by blast
  next
    case Raised_OSError
    with lp "3.prems" have "agg = frame_result l1" by auto
    with ok show ?thesis by blast
  qed
next
  case (4 cfg root path depth maxdepth l st)
  then show ?case by auto
next
  case (5 cfg root path depth maxdepth name rest l st)
  then show ?case by auto
next
  case (6 cfg root path depth maxdepth name dstat listing rest l st)
  let ?l1 = "l\<lparr>l_d_count := l_d_count l + 1, l_dirs := l_dirs l + 1\<rparr>"
  show ?case
  proof (cases "0 < maxdepth \<and> int depth < maxdepth \<and> \<not> quit st")
    case True
    with "6.prems" obtain b s1 where
      g: "get_tree_attr cfg root (path_join path name) dstat listing (depth + 1) maxdepth st = Inr (b, s1)"
      by (auto simp: Let_def split: sum.splits prod.splits)
    obtain b1 b2 b3 b4 where b: "b = (b1, b2, b3, b4)" by (cases b) auto
    let ?l2 = "?l1\<lparr>l_size := l_size ?l1 + b1, l_size_du := l_size_du ?l1 + b2,
                   l_files := l_files ?l1 + b3, l_dirs := l_dirs ?l1 + b4\<rparr>"
    from True g b "6.prems" have
      r: "scandir_loop cfg root path depth maxdepth rest ?l2 s1 = Inr (f, l', st')"
      by (simp add: Let_def)
    from "6.IH"(1)[OF refl True g] b obtain lb where
      lb: "(b1, b2, b3, b4) = frame_result lb" "frame_ok lb" by auto
    with "6.prems"(2) have ok2: "frame_ok ?l2"
      by (auto simp: frame_ok_def frame_result_def)
    from "6.IH"(2)[OF refl True g _ _ _ _ r ok2] b
    have "frame_ok l' \<and> l_dirs ?l2 \<le> l_dirs l' \<and> l_files ?l2 \<le> l_files l'"
      by simp
    with lb show ?thesis by (auto simp: frame_ok_def frame_result_def)
  next
    case False
    with "6.prems" have r: "scandir_loop cfg root path depth maxdepth rest ?l1 st = Inr (f, l', st')"
      by (simp add: Let_def)
    from "6.prems"(2) have ok1: "frame_ok ?l1" by (simp add: frame_ok_def)
    from "6.IH"(3)[OF refl False r ok1] show ?thesis by auto
  qed
next
  case (7 cfg root path depth maxdepth name fstat rest l st)
  let ?l1 = "l\<lparr>l_f_count := l_f_count l + 1\<rparr>"
  show ?case
  proof (cases fstat)
    case (Inl u)
    with "7.prems" show ?thesis by (auto simp: Let_def frame_ok_def)
  next
    case (Inr fs)
    with "7.prems"(1) obtain l2 s1 where
      v: "visit_file cfg path name fs ?l1 st = Inr (l2, s1)"
      and r: "scandir_loop cfg root path depth maxdepth rest l2 s1 = Inr (f, l', st')"
      by (auto simp: Let_def split: sum.splits prod.splits)
    from "7.prems"(2) have "frame_ok ?l1" by (simp add: frame_ok_def)
    with v have ok2: "frame_ok l2" by (rule visit_file_frame_ok)
    from visit_file_frame[OF v] have m: "l_dirs l2 = l_dirs l" "l_files l \<le> l_files l2"
      by (auto split: if_splits)
    from "7.IH"[OF refl Inr v refl r ok2] m show ?thesis by auto
  qed
qed

section \<open>Evaluation of the examples\<close>

lemmas crawl_defs = visit_file_def finish_dir_def append_document_def begin_bulk_def
  file_names_def dir_names_def get_file_name_def get_dir_name_def get_parent_path_def
  handle_unicode_def is_surrogate_def path_join_def path_dirname_def path_basename_def
  rstrip_slash_def path_suffix_def file_data_def dir_data_of_def update_counters_def
  frame_result_def frame0_def exit_app_critical_error_def slash_def dot_def qmark_def
  Let_def then_proc_def crawl_def crawl_thread_def flush_remainder_def merge_top_def
  sizes_add_def finish_crawl_def index_end_def es_count_def exit_app_def

lemmas ex_defs = ex_cfg_def ex_root_def ex_stat_def ex_env_def ex_listing_def
  ex_empty_listing_def ex_partial_listing_def start_state_def initial_state_def
  index_start_def tune_index_def ex_env_rejecting_def ex_env_partial_def
  ex_empty_run_def ex_partial_run_def ex_two_listing_def ex_two_run_def ex_thread_run_def
  ex_bad_name_def ex_bad_loop_def ex_bad_empty_loop_def
  ex_empty_pass_def ex_vanish_pass_def ex_clean_pass_def ex_first_loop_def
  ex_nested_pass_def ex_links_pass_def ex_sub_listing_def ex_sub_pass_def ex_sub_loop_def

lemma ex_prepare:
  "scan_prepare ex_env default_index_option ''/r'' = Inr (''/r'', ''scoutfsr-211231000000'')"
  "scan_prepare ex_env_partial default_index_option ''/r''
     = Inr (''/r'', ''scoutfsr-211231000000'')"
  "scan_prepare ex_env_rejecting default_index_option ''/r''
     = Inr (''/r'', ''scoutfsr-211231000000'')"
  "scan_prepare ex_env ''data'' ''/r'' = Inl 1"
  by code_simp+

lemma scan_examples:
  "exit_status (scan ex_cfg ex_env default_index_option ''/r'' 999) = Some 0"
  "exit_status (scan ex_cfg ex_env_partial default_index_option ''/r'' 999) = Some 78"
  unfolding scan_def ex_prepare by (simp_all add: crawl_defs ex_defs)

section \<open>The claims\<close>

subsection \<open>C8: exit status\<close>

text \<open>
  C8, as the code has it. \<^verbatim>\<open>exit_app\<close> ends the process with 78 when a warning was
  counted and with 0 otherwise; \<^verbatim>\<open>exit_app_critical_error\<close> ends it with 1, and so do
  the failures before the crawl (a missing setting, no connection, an index name
  without \<^verbatim>\<open>scoutfs-\<close>, a root that cannot be listed). A run of \<^verbatim>\<open>scan\<close> that gets to
  the crawl ends with 1 when the crawl aborts and with 78 or 0 when it completes, and
  no run ends with any other status. The status of a critical abort is therefore not
  a code of its own: it is the 1 of the startup failures.
\<close>

theorem exit_status_policy:
  "(\<not> quit st \<longrightarrow> exit_status (exit_app st) = Some (if warnings st > 0 then 78 else 0))
   \<and> exit_status (exit_app_critical_error :: crawl_state proc) = Some 1
   \<and> exit_status (load_config None) = Some 1
   \<and> (\<not> connection_ok env \<or> (index \<noteq> [] \<and> \<not> contains ''scoutfs-'' index)
        \<or> root_listing env = None
      \<longrightarrow> exit_status (scan cfg env index path maxdepth) = Some 1)
   \<and> (\<forall>dir_tree idx. scan_prepare env index path = Inr (dir_tree, idx) \<longrightarrow>
        exit_status (scan cfg env index path maxdepth) =
          (case crawl cfg (completion_order env) (map of_char dir_tree) (root_stat env)
                  (root_listing env) maxdepth (start_state env (map of_char dir_tree)) of
             Inl c \<Rightarrow> Some 1
           | Inr st' \<Rightarrow> Some (if warnings st' > 0 then 78 else 0)))
   \<and> exit_status (scan cfg env index path maxdepth) \<in> {Some 0, Some 1, Some 78}"
proof (intro conjI allI impI)
  assume "\<not> quit st"
  then show "exit_status (exit_app st) = Some (if warnings st > 0 then 78 else 0)"
    by (simp add: exit_app_def)
next
  show "exit_status (exit_app_critical_error :: crawl_state proc) = Some 1"
    by (simp add: exit_app_critical_error_def)
next
  show "exit_status (load_config None) = Some 1" by (simp add: load_config_def)
next
  assume "\<not> connection_ok env \<or> (index \<noteq> [] \<and> \<not> contains ''scoutfs-'' index)
        \<or> root_listing env = None"
  then have "scan_prepare env index path = Inl 1"
    by (auto simp: scan_prepare_def Let_def)
  then show "exit_status (scan cfg env index path maxdepth) = Some 1"
    by (simp add: scan_def then_proc_def)
next
  fix dir_tree idx
  assume p: "scan_prepare env index path = Inr (dir_tree, idx)"
  show "exit_status (scan cfg env index path maxdepth) =
          (case crawl cfg (completion_order env) (map of_char dir_tree) (root_stat env)
                  (root_listing env) maxdepth (start_state env (map of_char dir_tree)) of
             Inl c \<Rightarrow> Some 1
           | Inr st' \<Rightarrow> Some (if warnings st' > 0 then 78 else 0))"
  proof (cases "crawl cfg (completion_order env) (map of_char dir_tree) (root_stat env)
                  (root_listing env) maxdepth (start_state env (map of_char dir_tree))")
    case (Inl c)
    with crawl_Inl[OF Inl] p show ?thesis by (simp add: scan_def then_proc_def Let_def)
  next
    case (Inr st')
    from crawl_quit[OF Inr] have "\<not> quit st'" by (simp add: start_state_quit)
    with Inr p show ?thesis by (simp add: scan_def then_proc_def Let_def exit_app_def)
  qed
next
  show "exit_status (scan cfg env index path maxdepth) \<in> {Some 0, Some 1, Some 78}"
  proof (cases "scan_prepare env index path")
    case (Inl c)
    with scan_prepare_Inl[OF Inl] show ?thesis by (auto simp: scan_def then_proc_def)
  next
    case (Inr x)
    obtain dir_tree idx where x: "x = (dir_tree, idx)" by (cases x)
    show ?thesis
    proof (cases "crawl cfg (completion_order env) (map of_char dir_tree) (root_stat env)
                  (root_listing env) maxdepth (start_state env (map of_char dir_tree))")
      case (Inl c)
      with crawl_Inl[OF Inl] Inr x show ?thesis by (simp add: scan_def then_proc_def Let_def)
    next
      case c: (Inr st')
      from crawl_quit[OF c] have "\<not> quit st'" by (simp add: start_state_quit)
      with c Inr x show ?thesis by (simp add: scan_def then_proc_def Let_def exit_app_def)
    qed
  qed
qed

text \<open>The policy at the start state of the example and at the index name \<^verbatim>\<open>data\<close>.\<close>

theorem exit_status_policy_witness:
  "exit_status (exit_app (start_state ex_env ex_root)) = Some 0
   \<and> exit_status (scan ex_cfg ex_env ''data'' ''/r'' 999) = Some 1"
proof -
  have q: "\<not> quit (start_state ex_env ex_root)" by (rule start_state_quit)
  have w: "warnings (start_state ex_env ex_root) = 0"
    by (simp add: start_state_def initial_state_def Let_def)
  have i: "\<not> connection_ok ex_env \<or> (''data'' \<noteq> [] \<and> \<not> contains ''scoutfs-'' ''data'')
        \<or> root_listing ex_env = None" by simp
  note t = exit_status_policy[where st = "start_state ex_env ex_root" and env = ex_env
      and index = "''data''" and cfg = ex_cfg and path = "''/r''" and maxdepth = 999]
  from t have "\<not> quit (start_state ex_env ex_root) \<longrightarrow>
      exit_status (exit_app (start_state ex_env ex_root)) =
        Some (if warnings (start_state ex_env ex_root) > 0 then 78 else 0)"
    by (rule conjunct1)
  with q w have a: "exit_status (exit_app (start_state ex_env ex_root)) = Some 0" by simp
  from t have "\<not> connection_ok ex_env \<or> (''data'' \<noteq> [] \<and> \<not> contains ''scoutfs-'' ''data'')
        \<or> root_listing ex_env = None
      \<longrightarrow> exit_status (scan ex_cfg ex_env ''data'' ''/r'' 999) = Some 1"
    by (elim conjE)
  with i have b: "exit_status (scan ex_cfg ex_env ''data'' ''/r'' 999) = Some 1" by (rule rev_mp)
  from a b show ?thesis by (rule conjI)
qed

text \<open>
  C8 as stated fails: the run of the example that aborts on a refused batch and the
  run that is rejected for its index name end with the same status.
\<close>

theorem critical_status_not_distinct:
  "exit_status (scan ex_cfg ex_env_rejecting default_index_option ''/r'' 999) = Some 1
   \<and> exit_status (scan ex_cfg ex_env ''data'' ''/r'' 999) = Some 1
   \<and> exit_status (exit_app_critical_error :: crawl_state proc) = exit_status (load_config None)"
  unfolding scan_def ex_prepare by (simp add: crawl_defs ex_defs load_config_def)

subsection \<open>C9: the prefix of the index name\<close>

text \<open>
  C9 at two inputs. \<^verbatim>\<open>scan\<close> goes on with the index name \<^verbatim>\<open>my-scoutfs-x\<close>, which holds
  \<^verbatim>\<open>scoutfs-\<close> but does not begin with it; and for the root \<^verbatim>\<open>/r\<close> the default name it
  makes is \<^verbatim>\<open>scoutfsr-211231000000\<close>, which does not begin with \<^verbatim>\<open>scoutfs-\<close> either.
\<close>

theorem scan_index_prefix_not_enforced:
  "scan_prepare ex_env ''my-scoutfs-x'' ''/r'' = Inr (''/r'', ''my-scoutfs-x'')
   \<and> take 8 ''my-scoutfs-x'' \<noteq> ''scoutfs-''
   \<and> scan_prepare ex_env default_index_option ''/r'' = Inr (''/r'', ''scoutfsr-211231000000'')
   \<and> take 8 ''scoutfsr-211231000000'' \<noteq> ''scoutfs-''"
  by code_simp

subsection \<open>C7: the empty crawl\<close>

text \<open>
  C7. When \<^verbatim>\<open>crawl\<close> returns and the root has no entry in \<^verbatim>\<open>sizes\<close>, the run is marked
  empty, nothing was written with \<^verbatim>\<open>es.index\<close> (so no record of the root), the index
  was refreshed and counted once, and the index is deleted exactly when the count of
  file and directory documents is zero.
\<close>

theorem empty_crawl:
  assumes "crawl cfg order root rstat rlisting maxdepth st = Inr st'"
    and "sizes st' root = None"
  shows "emptyindex st'
    \<and> indexed (es st') = indexed (es st)
    \<and> refreshes (es st') = refreshes (es st) + 1
    \<and> count_queries (es st') = count_queries (es st) + 1
    \<and> (index_exists (es st') \<longleftrightarrow> index_exists (es st) \<and> es_count (es st') \<noteq> 0)"
proof -
  from assms(1) obtain entries s1 s2 where
    a: "crawl_thread cfg root root rstat rlisting 0 0 st = Inr s1"
    and b: "run_tasks cfg root maxdepth (order (subdir_list root entries)) s1 = Inr s2"
    and c: "st' = finish_crawl root s2"
    unfolding crawl_Inr by blast
  have k: "keeps_rest cfg root st s2"
    using crawl_thread_keeps_rest[OF a] run_tasks_keeps_rest[OF b] by (rule keeps_rest_trans)
  from assms(2) c have n: "sizes s2 root = None" by (simp add: finish_crawl_sizes)
  from c n k show ?thesis
    by (auto simp: finish_crawl_def Let_def keeps_rest_def es_count_def)
qed

text \<open>
  The root with one empty file: nothing was uploaded and the index is deleted. The
  root whose second entry has vanished: the record of the first file was uploaded,
  the count is 1 and the index stays.
\<close>

theorem empty_crawl_witness:
  "emptyindex (projr ex_empty_run) \<and> \<not> index_exists (es (projr ex_empty_run))
   \<and> indexed (es (projr ex_empty_run)) = [IndexInfoStart ex_root]
   \<and> count_queries (es (projr ex_empty_run)) = 1
   \<and> emptyindex (projr ex_partial_run) \<and> index_exists (es (projr ex_partial_run))
   \<and> es_count (es (projr ex_partial_run)) = 1
   \<and> indexed (es (projr ex_partial_run)) = [IndexInfoStart ex_root]"
proof -
  have r1: "exit_status ex_empty_run = None" and s1: "sizes (projr ex_empty_run) ex_root = None"
    and c1: "es_count (es (projr ex_empty_run)) = 0"
    by (simp_all add: crawl_defs ex_defs)
  have r2: "exit_status ex_partial_run = None" and s2: "sizes (projr ex_partial_run) ex_root = None"
    and c2: "es_count (es (projr ex_partial_run)) = 1"
    by (simp_all add: crawl_defs ex_defs)
  have i: "indexed (es (start_state ex_env ex_root)) = [IndexInfoStart ex_root]"
    "index_exists (es (start_state ex_env ex_root))"
    "count_queries (es (start_state ex_env ex_root)) = 0"
    by (simp_all add: ex_defs)
  from empty_crawl[OF exit_status_None[OF r1, unfolded ex_empty_run_def] s1[unfolded ex_empty_run_def]]
       empty_crawl[OF exit_status_None[OF r2, unfolded ex_partial_run_def] s2[unfolded ex_partial_run_def]]
       c1 c2 i
  show ?thesis by (simp add: ex_empty_run_def ex_partial_run_def)
qed

subsection \<open>C1: the totals of the root\<close>

lemma flush_remainder_sizes: "flush_remainder st = Inr st' \<Longrightarrow> sizes st' = sizes st"
  by (drule flush_remainder_Inr) auto

lemma frame_ok_no_size:
  assumes "frame_ok l" and "frame_result l = (a, b, c, d)" and "a \<le> 0"
  shows "a = 0 \<and> b = 0 \<and> c = 0"
  using assms by (auto simp: frame_ok_def frame_result_def)

text \<open>What a subtree task does to \<^verbatim>\<open>sizes\<close>.\<close>

lemma task_sizes:
  assumes run: "crawl_thread cfg root t dstat listing (Suc 0) maxdepth st = Inr st'"
    and ne: "t \<noteq> root"
  shows "\<exists>s s1 agg. get_tree_attr cfg root t dstat listing (Suc 0) maxdepth s = Inr (agg, s1) \<and>
           sizes st' t = Some (as_entry agg) \<and>
           (\<forall>k. k \<noteq> t \<longrightarrow> k \<noteq> root \<longrightarrow> sizes st' k = sizes st k) \<and>
           (case sizes st root of
              None \<Rightarrow> sizes st' root = None
            | Some r \<Rightarrow> \<exists>r'. sizes st' root = Some r' \<and>
                dd_size r' = dd_size r + dd_size (as_entry agg) \<and>
                dd_size_du r' = dd_size_du r + dd_size_du (as_entry agg) \<and>
                dd_file_count r' = dd_file_count r + dd_file_count (as_entry agg))"
proof -
  from run obtain agg s1 s3 where
    g: "get_tree_attr cfg root t dstat listing (Suc 0) maxdepth (st\<lparr>documents := []\<rparr>) = Inr (agg, s1)"
    and f: "flush_remainder s1 = Inr s3"
    and m: "merge_top root t agg s3 = Inr st'"
    unfolding crawl_thread_Inr by auto
  obtain a b c d where agg: "agg = (a, b, c, d)" by (cases agg) auto
  from get_tree_attr_keeps_sizes[OF g] flush_remainder_sizes[OF f]
  have sz: "sizes s3 = sizes st" by simp
  from get_tree_attr_frame_ok(1)[OF g] agg obtain l where
    l: "frame_result l = (a, b, c, d)" "frame_ok l" by auto
  from merge_top_Inr[OF m[unfolded agg] ne] show ?thesis
  proof
    assume h: "a \<le> 0 \<and> st' = s3\<lparr>sizes := (sizes s3)(t \<mapsto>
                \<lparr>dd_size = a, dd_size_du = b, dd_file_count = c, dd_dir_count = d,
                 dd_ident = None\<rparr>)\<rparr>"
    with frame_ok_no_size[OF l(2) l(1)] have z: "a = 0" "b = 0" "c = 0" by auto
    from h sz ne z agg have
      "sizes st' t = Some (as_entry agg) \<and>
       (\<forall>k. k \<noteq> t \<longrightarrow> k \<noteq> root \<longrightarrow> sizes st' k = sizes st k) \<and>
       (case sizes st root of
              None \<Rightarrow> sizes st' root = None
            | Some r \<Rightarrow> \<exists>r'. sizes st' root = Some r' \<and>
                dd_size r' = dd_size r + dd_size (as_entry agg) \<and>
                dd_size_du r' = dd_size_du r + dd_size_du (as_entry agg) \<and>
                dd_file_count r' = dd_file_count r + dd_file_count (as_entry agg))"
      by (auto simp: as_entry_def split: option.splits)
    with g show ?thesis by blast
  next
    assume "0 < a \<and> (\<exists>r r'. sizes s3 root = Some r \<and>
            st' = s3\<lparr>sizes := (sizes s3)(t \<mapsto>
                \<lparr>dd_size = a, dd_size_du = b, dd_file_count = c, dd_dir_count = d,
                 dd_ident = None\<rparr>, root \<mapsto> r')\<rparr> \<and>
            dd_size r' = dd_size r + a \<and> dd_size_du r' = dd_size_du r + b \<and>
            dd_file_count r' = dd_file_count r + c \<and>
            dd_dir_count r' = dd_dir_count r + d \<and> dd_ident r' = dd_ident r)"
    then obtain r r' where r: "sizes s3 root = Some r"
      and st': "st' = s3\<lparr>sizes := (sizes s3)(t \<mapsto>
                \<lparr>dd_size = a, dd_size_du = b, dd_file_count = c, dd_dir_count = d,
                 dd_ident = None\<rparr>, root \<mapsto> r')\<rparr>"
      and r': "dd_size r' = dd_size r + a" "dd_size_du r' = dd_size_du r + b"
              "dd_file_count r' = dd_file_count r + c"
      by blast
    from st' r r' sz ne agg have
      "sizes st' t = Some (as_entry agg) \<and>
       (\<forall>k. k \<noteq> t \<longrightarrow> k \<noteq> root \<longrightarrow> sizes st' k = sizes st k) \<and>
       (case sizes st root of
              None \<Rightarrow> sizes st' root = None
            | Some r \<Rightarrow> \<exists>r'. sizes st' root = Some r' \<and>
                dd_size r' = dd_size r + dd_size (as_entry agg) \<and>
                dd_size_du r' = dd_size_du r + dd_size_du (as_entry agg) \<and>
                dd_file_count r' = dd_file_count r + dd_file_count (as_entry agg))"
      by (auto simp: as_entry_def split: option.splits)
    with g show ?thesis by blast
  qed
qed


text \<open>The subtree tasks, in any order in which they are given.\<close>

lemma run_tasks_sizes:
  assumes "run_tasks cfg root maxdepth ts st = Inr st'"
    and "distinct (map fst ts)" and "root \<notin> set (map fst ts)"
  shows "(\<forall>k. k \<notin> set (map fst ts) \<longrightarrow> k \<noteq> root \<longrightarrow> sizes st' k = sizes st k) \<and>
         (\<forall>t\<in>set ts. \<exists>s s1 agg.
            get_tree_attr cfg root (fst t) (fst (snd t)) (snd (snd t)) (Suc 0) maxdepth s
              = Inr (agg, s1) \<and>
            sizes st' (fst t) = Some (as_entry agg)) \<and>
         (case sizes st root of
            None \<Rightarrow> sizes st' root = None
          | Some r \<Rightarrow> \<exists>r'. sizes st' root = Some r' \<and>
              dd_size r' = dd_size r + (\<Sum>t\<leftarrow>ts. top_total dd_size st' (fst t)) \<and>
              dd_size_du r' = dd_size_du r + (\<Sum>t\<leftarrow>ts. top_total dd_size_du st' (fst t)) \<and>
              dd_file_count r' =
                dd_file_count r + (\<Sum>t\<leftarrow>ts. top_total dd_file_count st' (fst t)))"
  using assms
proof (induction ts arbitrary: st)
  case Nil
  then show ?case by (auto split: option.splits)
next
  case (Cons x rest)
  obtain t ds ls where x: "x = (t, ds, ls)" by (cases x) auto
  from Cons.prems(1) x obtain s1 where
    c: "crawl_thread cfg root t ds ls (Suc 0) maxdepth st = Inr s1"
    and r: "run_tasks cfg root maxdepth rest s1 = Inr st'"
    by (auto split: sum.splits)
  from Cons.prems(2,3) x have d: "distinct (map fst rest)" and nr: "root \<notin> set (map fst rest)"
    and tn: "t \<notin> set (map fst rest)" and ne: "t \<noteq> root"
    by auto
  from task_sizes[OF c ne] obtain s sa agg where
    g: "get_tree_attr cfg root t ds ls (Suc 0) maxdepth s = Inr (agg, sa)"
    and tt: "sizes s1 t = Some (as_entry agg)"
    and oth: "\<forall>k. k \<noteq> t \<longrightarrow> k \<noteq> root \<longrightarrow> sizes s1 k = sizes st k"
    and rt: "case sizes st root of
              None \<Rightarrow> sizes s1 root = None
            | Some r \<Rightarrow> \<exists>r'. sizes s1 root = Some r' \<and>
                dd_size r' = dd_size r + dd_size (as_entry agg) \<and>
                dd_size_du r' = dd_size_du r + dd_size_du (as_entry agg) \<and>
                dd_file_count r' = dd_file_count r + dd_file_count (as_entry agg)"
    by blast
  note ih = Cons.IH[OF r d nr]
  from ih have ih1: "\<forall>k. k \<notin> set (map fst rest) \<longrightarrow> k \<noteq> root \<longrightarrow> sizes st' k = sizes s1 k"
    by blast
  from ih have ih2: "\<forall>t\<in>set rest. \<exists>s s1 agg.
            get_tree_attr cfg root (fst t) (fst (snd t)) (snd (snd t)) (Suc 0) maxdepth s
              = Inr (agg, s1) \<and>
            sizes st' (fst t) = Some (as_entry agg)"
    by blast
  from ih have ih3: "case sizes s1 root of
            None \<Rightarrow> sizes st' root = None
          | Some r \<Rightarrow> \<exists>r'. sizes st' root = Some r' \<and>
              dd_size r' = dd_size r + (\<Sum>t\<leftarrow>rest. top_total dd_size st' (fst t)) \<and>
              dd_size_du r' = dd_size_du r + (\<Sum>t\<leftarrow>rest. top_total dd_size_du st' (fst t)) \<and>
              dd_file_count r' =
                dd_file_count r + (\<Sum>t\<leftarrow>rest. top_total dd_file_count st' (fst t))"
    by blast
  from ih1 tn ne tt have t': "sizes st' t = Some (as_entry agg)" by simp
  have a: "\<forall>k. k \<notin> set (map fst (x # rest)) \<longrightarrow> k \<noteq> root \<longrightarrow> sizes st' k = sizes st k"
    using ih1 oth x by auto
  have b: "\<forall>t\<in>set (x # rest). \<exists>s s1 agg.
            get_tree_attr cfg root (fst t) (fst (snd t)) (snd (snd t)) (Suc 0) maxdepth s
              = Inr (agg, s1) \<and>
            sizes st' (fst t) = Some (as_entry agg)"
  proof
    fix y assume "y \<in> set (x # rest)"
    then consider "y = x" | "y \<in> set rest" by auto
    then show "\<exists>s s1 agg.
            get_tree_attr cfg root (fst y) (fst (snd y)) (snd (snd y)) (Suc 0) maxdepth s
              = Inr (agg, s1) \<and>
            sizes st' (fst y) = Some (as_entry agg)"
    proof cases
      case 1
      with g t' x show ?thesis by (intro exI[of _ s] exI[of _ sa] exI[of _ agg]) simp
    next
      case 2
      with ih2 show ?thesis by blast
    qed
  qed
  have c': "case sizes st root of
            None \<Rightarrow> sizes st' root = None
          | Some r \<Rightarrow> \<exists>r'. sizes st' root = Some r' \<and>
              dd_size r' = dd_size r + (\<Sum>t\<leftarrow>x # rest. top_total dd_size st' (fst t)) \<and>
              dd_size_du r' = dd_size_du r + (\<Sum>t\<leftarrow>x # rest. top_total dd_size_du st' (fst t)) \<and>
              dd_file_count r' =
                dd_file_count r + (\<Sum>t\<leftarrow>x # rest. top_total dd_file_count st' (fst t))"
  proof (cases "sizes st root")
    case None
    with rt ih3 show ?thesis by simp
  next
    case (Some r)
    with rt obtain r1 where r1: "sizes s1 root = Some r1"
      "dd_size r1 = dd_size r + dd_size (as_entry agg)"
      "dd_size_du r1 = dd_size_du r + dd_size_du (as_entry agg)"
      "dd_file_count r1 = dd_file_count r + dd_file_count (as_entry agg)"
      by auto
    with ih3 obtain r' where "sizes st' root = Some r'"
      "dd_size r' = dd_size r1 + (\<Sum>t\<leftarrow>rest. top_total dd_size st' (fst t))"
      "dd_size_du r' = dd_size_du r1 + (\<Sum>t\<leftarrow>rest. top_total dd_size_du st' (fst t))"
      "dd_file_count r' = dd_file_count r1 + (\<Sum>t\<leftarrow>rest. top_total dd_file_count st' (fst t))"
      by auto
    with r1 t' Some x show ?thesis by (simp add: top_total_def)
  qed
  from a b c' show ?case by blast
qed


text \<open>The paths of the tasks are distinct and none is the root.\<close>

lemma subdir_list_paths:
  "map fst (subdir_list root entries) = map (path_join root) (subdir_names entries)"
  by (induction root entries rule: subdir_list.induct) simp_all

lemma path_join_name:
  assumes "n \<noteq> []" and "slash \<notin> set n"
  shows "path_join root n = root @ (if root = [] \<or> last root = slash then [] else [slash]) @ n"
proof -
  from assms have "hd n \<noteq> slash" by (cases n) auto
  then show ?thesis by (simp add: path_join_def)
qed

lemma well_named_paths:
  assumes "well_named entries"
  shows "distinct (map fst (subdir_list root entries))"
    and "root \<notin> set (map fst (subdir_list root entries))"
proof -
  let ?sep = "if root = [] \<or> last root = slash then [] else [slash]"
  from assms have d: "distinct (subdir_names entries)"
    and ok: "\<forall>n\<in>set (subdir_names entries). n \<noteq> [] \<and> slash \<notin> set n"
    by (auto simp: well_named_def list_all_iff)
  have eq: "map (path_join root) (subdir_names entries)
              = map (\<lambda>n. root @ ?sep @ n) (subdir_names entries)"
    using ok by (intro map_cong refl) (simp add: path_join_name)
  have "inj (\<lambda>n. root @ ?sep @ n)" by (rule injI) simp
  then have "distinct (map (\<lambda>n. root @ ?sep @ n) (subdir_names entries))"
    using d by (simp add: distinct_map inj_on_def)
  then show "distinct (map fst (subdir_list root entries))"
    unfolding subdir_list_paths eq .
  have "root \<notin> set (map (\<lambda>n. root @ ?sep @ n) (subdir_names entries))"
    using ok by auto
  then show "root \<notin> set (map fst (subdir_list root entries))"
    unfolding subdir_list_paths eq .
qed

text \<open>The pass over the root itself, which does not recurse.\<close>

lemma loop_no_recursion:
  "scandir_loop cfg root path depth 0 entries l st = Inr (f, l', st') \<Longrightarrow>
   sizes st' = sizes st \<and>
   (f = Normal \<longrightarrow>
      l_size l' = l_size l + direct_size entries \<and>
      l_size_du l' = l_size_du l + direct_size_du cfg entries \<and>
      l_files l' = l_files l + direct_files entries)"
proof (induction entries arbitrary: l st rule: direct_stats.induct)
  case 1
  then show ?case by (auto simp: direct_size_def direct_size_du_def direct_files_def)
next
  case (2 name s rest)
  from "2.prems" obtain l2 s1 where
    v: "visit_file cfg path name s (l\<lparr>l_f_count := l_f_count l + 1\<rparr>) st = Inr (l2, s1)"
    and r: "scandir_loop cfg root path depth 0 rest l2 s1 = Inr (f, l', st')"
    by (auto simp: Let_def split: sum.splits prod.splits)
  from keeps_sizes_visit[OF v] have sz: "sizes s1 = sizes st" by (simp add: keeps_sizes_def)
  show ?case
  proof (cases "0 < st_size s")
    case True
    with "2.IH"(1)[OF True r] visit_file_frame[OF v] sz show ?thesis
      by (auto simp: direct_size_def direct_size_du_def direct_files_def)
  next
    case False
    with "2.IH"(2)[OF False r] visit_file_frame[OF v] sz show ?thesis
      by (auto simp: direct_size_def direct_size_du_def direct_files_def)
  qed
qed (auto simp: Let_def direct_size_def direct_size_du_def direct_files_def)

lemma root_pass_baseline:
  assumes run: "crawl_thread cfg root root rstat (Some entries) 0 0 st = Inr s0"
    and fresh: "sizes st root = None" and base: "sizes s0 root = Some r0"
  shows "dd_size r0 = direct_size entries \<and> dd_size_du r0 = direct_size_du cfg entries \<and>
         dd_file_count r0 = direct_files entries"
proof -
  from run obtain agg s1 where
    g: "get_tree_attr cfg root root rstat (Some entries) 0 0 (st\<lparr>documents := []\<rparr>) = Inr (agg, s1)"
    and f: "flush_remainder s1 = Inr s0"
    unfolding crawl_thread_Inr by auto
  from flush_remainder_sizes[OF f] base have b1: "sizes s1 root = Some r0" by simp
  show ?thesis
  proof (cases rstat)
    case (Inl u)
    with g fresh b1 show ?thesis by auto
  next
    case (Inr ds)
    with g obtain fl l sa where
      lp: "scandir_loop cfg root root 0 0 entries frame0 (st\<lparr>documents := []\<rparr>) = Inr (fl, l, sa)"
      by (auto split: sum.splits)
    from loop_no_recursion[OF lp] fresh have sa: "sizes sa root = None" by simp
    show ?thesis
    proof (cases fl)
      case Raised_OSError
      with g Inr lp sa b1 show ?thesis by auto
    next
      case Normal
      with g Inr lp obtain l2 where
        fd: "finish_dir cfg root root ds 0 l sa = Inr (l2, s1)"
        by (auto split: sum.splits)
      from finish_dir_cases[OF fd] sa b1 obtain fn p where
        "r0 = dir_data_of ds fn p l"
        by (auto simp: update_counters_def split: if_splits)
      with Normal loop_no_recursion[OF lp] show ?thesis
        by (simp add: dir_data_of_def frame0_def)
    qed
  qed
qed


lemma sum_list_perm:
  assumes "mset xs = mset ys"
  shows "(\<Sum>x\<leftarrow>xs. (f x :: int)) = (\<Sum>x\<leftarrow>ys. f x)"
proof -
  have "(\<Sum>x\<leftarrow>xs. f x) = sum_mset (image_mset f (mset xs))"
    by (simp flip: sum_mset_sum_list)
  also have "\<dots> = sum_mset (image_mset f (mset ys))" using assms by simp
  also have "\<dots> = (\<Sum>x\<leftarrow>ys. f x)" by (simp flip: sum_mset_sum_list)
  finally show ?thesis .
qed

lemma top_total_finish: "top_total g (finish_crawl root st) t = top_total g st t"
  by (simp add: top_total_def finish_crawl_sizes)

text \<open>
  C1. \<^verbatim>\<open>crawl\<close> has returned, the tasks having completed in any order that is a
  permutation of the work list, on a root whose subdirectories are well named and
  with no entry of the root in \<^verbatim>\<open>sizes\<close> at the start. Then the size, the size on disk
  and the file count of the root's entry are what the files directly in the root
  contribute plus the sum, over the subdirectories, of what is stored under
  \<^verbatim>\<open>sizes[top]\<close>; and what is stored there is the aggregate that a call of
  \<^verbatim>\<open>get_tree_attr\<close> on that subdirectory at depth 1 returned.
\<close>

theorem root_rollup_total:
  assumes run: "crawl cfg order root rstat (Some entries) maxdepth st = Inr st'"
    and perm: "mset (order (subdir_list root entries)) = mset (subdir_list root entries)"
    and names: "well_named entries"
    and fresh: "sizes st root = None"
    and rollup: "sizes st' root = Some r'"
  shows "dd_size r' = direct_size entries
           + (\<Sum>t\<leftarrow>subdir_list root entries. top_total dd_size st' (fst t))
       \<and> dd_size_du r' = direct_size_du cfg entries
           + (\<Sum>t\<leftarrow>subdir_list root entries. top_total dd_size_du st' (fst t))
       \<and> dd_file_count r' = direct_files entries
           + (\<Sum>t\<leftarrow>subdir_list root entries. top_total dd_file_count st' (fst t))
       \<and> (\<forall>t\<in>set (subdir_list root entries). \<exists>s s1 agg.
            get_tree_attr cfg root (fst t) (fst (snd t)) (snd (snd t)) (Suc 0) maxdepth s
              = Inr (agg, s1) \<and>
            sizes st' (fst t) = Some (as_entry agg))"
proof -
  let ?ts = "subdir_list root entries"
  from run obtain s1 s2 where
    a: "crawl_thread cfg root root rstat (Some entries) 0 0 st = Inr s1"
    and b: "run_tasks cfg root maxdepth (order ?ts) s1 = Inr s2"
    and c: "st' = finish_crawl root s2"
    unfolding crawl_Inr by auto
  from perm have pm: "mset (map fst (order ?ts)) = mset (map fst ?ts)" by simp
  from well_named_paths[OF names, of root] have "distinct (map fst ?ts)"
    and "root \<notin> set (map fst ?ts)" by simp_all
  with pm have d: "distinct (map fst (order ?ts))" and nr: "root \<notin> set (map fst (order ?ts))"
    by (metis mset_eq_imp_distinct_iff, metis mset_eq_setD)
  note rs = run_tasks_sizes[OF b d nr]
  from c rollup have r2: "sizes s2 root = Some r'" by (simp add: finish_crawl_sizes)
  from rs r2 obtain r0 where r0: "sizes s1 root = Some r0"
    by (cases "sizes s1 root") auto
  from rs r0 r2 have sums:
    "dd_size r' = dd_size r0 + (\<Sum>t\<leftarrow>order ?ts. top_total dd_size s2 (fst t))"
    "dd_size_du r' = dd_size_du r0 + (\<Sum>t\<leftarrow>order ?ts. top_total dd_size_du s2 (fst t))"
    "dd_file_count r' = dd_file_count r0 + (\<Sum>t\<leftarrow>order ?ts. top_total dd_file_count s2 (fst t))"
    by auto
  from rs have each: "\<forall>t\<in>set (order ?ts). \<exists>s s1 agg.
            get_tree_attr cfg root (fst t) (fst (snd t)) (snd (snd t)) (Suc 0) maxdepth s
              = Inr (agg, s1) \<and>
            sizes s2 (fst t) = Some (as_entry agg)"
    by blast
  from perm have "set (order ?ts) = set ?ts" by (rule mset_eq_setD)
  with each c have e: "\<forall>t\<in>set ?ts. \<exists>s s1 agg.
            get_tree_attr cfg root (fst t) (fst (snd t)) (snd (snd t)) (Suc 0) maxdepth s
              = Inr (agg, s1) \<and>
            sizes st' (fst t) = Some (as_entry agg)"
    by (simp add: finish_crawl_sizes)
  note bl = root_pass_baseline[OF a fresh r0]
  from sums bl c show ?thesis
    using e sum_list_perm[OF perm, of "\<lambda>t. top_total dd_size s2 (fst t)"]
      sum_list_perm[OF perm, of "\<lambda>t. top_total dd_size_du s2 (fst t)"]
      sum_list_perm[OF perm, of "\<lambda>t. top_total dd_file_count s2 (fst t)"]
    by (simp add: top_total_finish)
qed

text \<open>
  The root with two subdirectories, the tasks completing in reverse order:
  35 = 10 + (20 + 5) bytes and 3 = 1 + (1 + 1) files.
\<close>

theorem root_rollup_total_witness:
  "dd_size (the (sizes (projr ex_two_run) ex_root)) = 35
   \<and> dd_size_du (the (sizes (projr ex_two_run) ex_root)) = 12288
   \<and> dd_file_count (the (sizes (projr ex_two_run) ex_root)) = 3
   \<and> direct_size ex_two_listing = 10
   \<and> map (\<lambda>t. top_total dd_size (projr ex_two_run) (fst t)) (subdir_list ex_root ex_two_listing)
       = [20, 5]"
proof -
  have r: "exit_status ex_two_run = None"
    and s: "sizes (projr ex_two_run) ex_root \<noteq> None"
    and t: "map (\<lambda>t. top_total dd_size (projr ex_two_run) (fst t)) (subdir_list ex_root ex_two_listing)
       = [20, 5]"
      "map (\<lambda>t. top_total dd_size_du (projr ex_two_run) (fst t)) (subdir_list ex_root ex_two_listing)
       = [4096, 4096]"
      "map (\<lambda>t. top_total dd_file_count (projr ex_two_run) (fst t)) (subdir_list ex_root ex_two_listing)
       = [1, 1]"
    by (simp_all add: crawl_defs ex_defs top_total_def)
  have d: "direct_size ex_two_listing = 10" "direct_size_du ex_cfg ex_two_listing = 4096"
    "direct_files ex_two_listing = 1"
    by (simp_all add: direct_size_def direct_size_du_def direct_files_def ex_defs)
  have p: "mset (rev (subdir_list ex_root ex_two_listing)) = mset (subdir_list ex_root ex_two_listing)"
    by simp
  have n: "well_named ex_two_listing"
    by (simp add: well_named_def ex_two_listing_def slash_def)
  have f: "sizes (start_state ex_env ex_root) ex_root = None" by (simp add: ex_defs)
  from s have s': "sizes (projr ex_two_run) ex_root = Some (the (sizes (projr ex_two_run) ex_root))"
    by simp
  note th = root_rollup_total[OF exit_status_None[OF r, unfolded ex_two_run_def] p n f
         s'[unfolded ex_two_run_def], folded ex_two_run_def, unfolded t d]
  from th t(1) d(1) show ?thesis by simp
qed

subsection \<open>C4: batches and flushes\<close>



















subsection \<open>C6: names that are not UTF-8\<close>






subsection \<open>C2: files of no bytes\<close>

lemma loop_append:
  "scandir_loop cfg root path depth maxdepth (pre @ post) l st =
     (case scandir_loop cfg root path depth maxdepth pre l st of
        Inl c \<Rightarrow> Inl c
      | Inr (f, l', st') \<Rightarrow>
          (case f of
             Raised_OSError \<Rightarrow> Inr (Raised_OSError, l', st')
           | Normal \<Rightarrow> scandir_loop cfg root path depth maxdepth post l' st'))"
proof (induction pre arbitrary: l st)
  case Nil
  then show ?case by simp
next
  case (Cons e pre)
  show ?case
  proof (cases e)
    case (Symlink n)
    with Cons show ?thesis by simp
  next
    case (File n fstat)
    with Cons show ?thesis
      by (auto simp: Let_def split: sum.splits prod.splits flow.splits)
  next
    case (Dir n dstat listing)
    with Cons show ?thesis
      by (auto simp: Let_def split: sum.splits prod.splits flow.splits)
  qed
qed












subsection \<open>C5: errors of the operating system\<close>

text \<open>
  C5, as the code has it. When \<^verbatim>\<open>os.stat\<close> of a directory raises, or \<^verbatim>\<open>os.scandir\<close>
  raises, the call returns the zero aggregate and raises the warning counter by
  exactly one, and the loop of the parent, which has counted the directory as one
  entry, goes on with its remaining entries. When the \<^verbatim>\<open>stat\<close> of a file entry raises,
  the warning counter is raised by exactly one as well, but the loop of the enclosing
  directory ends there: the call returns what the entries before the failing one had
  accumulated, and nothing else happens, so the entries after it are not visited, the
  directory gets no record and the counters of the root get nothing from it.
\<close>

theorem os_error_handling:
  "get_tree_attr cfg root path (Inl e) listing depth maxdepth st
       = Inr ((0, 0, 0, 0), st\<lparr>warnings := warnings st + 1\<rparr>)
   \<and> get_tree_attr cfg root path (Inr ds) None depth maxdepth st
       = Inr ((0, 0, 0, 0), st\<lparr>warnings := warnings st + 1\<rparr>)
   \<and> (0 < maxdepth \<and> int depth < maxdepth \<and> \<not> quit st \<and>
        (dstat = Inl e \<or> sub = None) \<longrightarrow>
        scandir_loop cfg root path depth maxdepth (Dir name dstat sub # rest) l st
          = scandir_loop cfg root path depth maxdepth rest
              (l\<lparr>l_d_count := l_d_count l + 1, l_dirs := l_dirs l + 1\<rparr>)
              (st\<lparr>warnings := warnings st + 1\<rparr>))
   \<and> (scandir_loop cfg root path depth maxdepth pre frame0 st = Inr (Normal, l1, s1) \<longrightarrow>
        get_tree_attr cfg root path (Inr ds) (Some (pre @ File fname (Inl e) # post))
            depth maxdepth st
          = Inr (frame_result l1, s1\<lparr>warnings := warnings s1 + 1\<rparr>))"
proof (intro conjI impI)
  show "get_tree_attr cfg root path (Inl e) listing depth maxdepth st
       = Inr ((0, 0, 0, 0), st\<lparr>warnings := warnings st + 1\<rparr>)"
    by simp
next
  show "get_tree_attr cfg root path (Inr ds) None depth maxdepth st
       = Inr ((0, 0, 0, 0), st\<lparr>warnings := warnings st + 1\<rparr>)"
    by (simp add: frame_result_def frame0_def)
next
  assume a: "0 < maxdepth \<and> int depth < maxdepth \<and> \<not> quit st \<and> (dstat = Inl e \<or> sub = None)"
  have "get_tree_attr cfg root (path_join path name) dstat sub (depth + 1) maxdepth st
          = Inr ((0, 0, 0, 0), st\<lparr>warnings := warnings st + 1\<rparr>)"
  proof (cases dstat)
    case (Inl u)
    then show ?thesis by simp
  next
    case (Inr d)
    with a have "sub = None" by simp
    with Inr show ?thesis by (simp add: frame_result_def frame0_def)
  qed
  with a show "scandir_loop cfg root path depth maxdepth (Dir name dstat sub # rest) l st
          = scandir_loop cfg root path depth maxdepth rest
              (l\<lparr>l_d_count := l_d_count l + 1, l_dirs := l_dirs l + 1\<rparr>)
              (st\<lparr>warnings := warnings st + 1\<rparr>)"
    by (simp add: Let_def)
next
  assume "scandir_loop cfg root path depth maxdepth pre frame0 st = Inr (Normal, l1, s1)"
  then show "get_tree_attr cfg root path (Inr ds) (Some (pre @ File fname (Inl e) # post))
            depth maxdepth st
          = Inr (frame_result l1, s1\<lparr>warnings := warnings s1 + 1\<rparr>)"
    by (simp add: loop_append Let_def frame_result_def)
qed

text \<open>The root with the files \<^verbatim>\<open>a\<close>, \<^verbatim>\<open>b\<close> (vanished) and \<^verbatim>\<open>c\<close>: the aggregate is that of \<^verbatim>\<open>a\<close>.\<close>

theorem os_error_handling_witness:
  "fst (projr ex_vanish_pass) = (10, 4096, 1, 0)
   \<and> warnings (snd (projr ex_vanish_pass)) = 1
   \<and> sizes (snd (projr ex_vanish_pass)) ex_root = None
   \<and> filecount (snd (projr ex_vanish_pass)) = 0"
proof -
  have r: "exit_status ex_first_loop = None"
    and f: "fst (projr ex_first_loop) = Normal"
    and a: "frame_result (fst (snd (projr ex_first_loop))) = (10, 4096, 1, 0)"
    and w: "warnings (snd (snd (projr ex_first_loop))) = 0"
    and s: "sizes (snd (snd (projr ex_first_loop))) ex_root = None"
    and c: "filecount (snd (snd (projr ex_first_loop))) = 0"
    by (simp_all add: crawl_defs ex_defs)
  define l1 where "l1 = fst (snd (projr ex_first_loop))"
  define s1 where "s1 = snd (snd (projr ex_first_loop))"
  from exit_status_None[OF r] f have eq: "ex_first_loop = Inr (Normal, l1, s1)"
    unfolding l1_def s1_def by (metis prod.collapse)
  from os_error_handling[where cfg = ex_cfg and root = ex_root and path = ex_root
      and pre = "[File [97] (Inr (ex_stat 10 1))]" and st = "start_state ex_env ex_root"
      and depth = 0 and maxdepth = 0 and ?l1.0 = l1 and ?s1.0 = s1 and ds = "ex_stat 4096 8"
      and fname = "[98]" and e = "()" and post = "[File [99] (Inr (ex_stat 5 1))]",
      THEN conjunct2, THEN conjunct2, THEN conjunct2, rule_format,
      OF eq[unfolded ex_first_loop_def], folded ex_vanish_pass_def]
  have v: "ex_vanish_pass = Inr (frame_result l1, s1\<lparr>warnings := warnings s1 + 1\<rparr>)" .
  show ?thesis unfolding v using a w s c by (simp add: l1_def s1_def)
qed

text \<open>
  C5 as stated fails at the vanished file: the directory that holds it returns
  (10, 4096, 1, 0) and not the zero aggregate, and the rest of the tree is not left as
  it is, since without the vanished entry the same directory returns (15, 8192, 2, 0),
  emits the record of \<^verbatim>\<open>c\<close> too, gets its own entry and counts its inodes.
\<close>

theorem vanished_entry_not_local:
  "fst (projr ex_vanish_pass) = (10, 4096, 1, 0)
   \<and> fst (projr ex_clean_pass) = (15, 8192, 2, 0)
   \<and> length (emitted (snd (projr ex_vanish_pass))) = 1
   \<and> length (emitted (snd (projr ex_clean_pass))) = 2
   \<and> sizes (snd (projr ex_vanish_pass)) ex_root = None
   \<and> sizes (snd (projr ex_clean_pass)) ex_root \<noteq> None
   \<and> inodecount (snd (projr ex_vanish_pass)) = 0
   \<and> inodecount (snd (projr ex_clean_pass)) = 2"
  by (simp add: crawl_defs ex_defs emitted_def)

subsection \<open>C3: directories that are skipped\<close>









subsection \<open>C10: a directory counts itself\<close>





end
